theory Spec2Isabelle
  imports Main
begin

section \<open>Values\<close>

text \<open>
  The JavaScript values that reach the layout resolver: a layout reference is a string, a
  boolean, a number, \<^verbatim>\<open>null\<close> or \<^verbatim>\<open>undefined\<close>; objects and arrays are not layout references.
  A number is given by the string that JavaScript writes for it, which is what the code uses
  of it as a property key: \<^verbatim>\<open>Num ''0''\<close> is \<^verbatim>\<open>0\<close> (and \<^verbatim>\<open>-0\<close>), \<^verbatim>\<open>Num ''1e+21''\<close> is \<^verbatim>\<open>1e21\<close>,
  \<^verbatim>\<open>Num ''0.5''\<close> is \<^verbatim>\<open>0.5\<close>. Two numbers other than \<^verbatim>\<open>NaN\<close> are equal under \<^verbatim>\<open>===\<close> exactly when
  they are written alike, and \<^verbatim>\<open>NaN\<close> is falsy, so it is never compared as a name.
\<close>

datatype jsval = Undefined | Null | Bool bool | Num string | Str string

text \<open>Truthiness, as \<^verbatim>\<open>!value\<close>, \<^verbatim>\<open>a && b\<close> and \<^verbatim>\<open>a || b\<close> test it.\<close>

fun truthy :: "jsval \<Rightarrow> bool" where
  "truthy Undefined = False"
| "truthy Null = False"
| "truthy (Bool b) = b"
| "truthy (Num n) = (n \<noteq> ''0'' \<and> n \<noteq> ''NaN'')"
| "truthy (Str s) = (s \<noteq> [])"

text \<open>\<^verbatim>\<open>a || b\<close> on values.\<close>

definition js_or :: "jsval \<Rightarrow> jsval \<Rightarrow> jsval" where
  "js_or a b = (if truthy a then a else b)"

text \<open>Property keys: \<^verbatim>\<open>this.cache[name]\<close> converts \<^verbatim>\<open>name\<close> to a string.\<close>

fun toKey :: "jsval \<Rightarrow> string" where
  "toKey Undefined = ''undefined''"
| "toKey Null = ''null''"
| "toKey (Bool b) = (if b then ''true'' else ''false'')"
| "toKey (Num n) = n"
| "toKey (Str s) = s"

section \<open>External collaborators\<close>

text \<open>
  Modelled from the spec: the predicate of the package \<^verbatim>\<open>falsey\<close>, which is required by the
  source and is not part of it. The spec lists the values it accepts: \<^verbatim>\<open>false\<close>, \<^verbatim>\<open>''\<close>,
  \<^verbatim>\<open>'false'\<close>, \<^verbatim>\<open>'null'\<close>, \<^verbatim>\<open>'nil'\<close>, \<^verbatim>\<open>'no'\<close> and \<^verbatim>\<open>0\<close>.
\<close>

definition isFalsey_spec :: "jsval \<Rightarrow> bool" where
  "isFalsey_spec v =
     (v = Bool False \<or> v = Str [] \<or> v = Str ''false'' \<or> v = Str ''null''
      \<or> v = Str ''nil'' \<or> v = Str ''no'' \<or> v = Num ''0'')"

section \<open>assertLayout\<close>

text \<open>
  \<^verbatim>\<open>
  Layouts.prototype.assertLayout = function (value, defaultLayout) {
    if (value === false || (value && isFalsey(value))) {
      return null;
    } else if (!value || value === true) {
      return defaultLayout || null;
    } else {
      return value;
    }
  };
  \<close>
  The falsey predicate is a parameter, so that what is proved holds for every version of the
  package.
\<close>

definition assertLayout :: "(jsval \<Rightarrow> bool) \<Rightarrow> jsval \<Rightarrow> jsval \<Rightarrow> jsval" where
  "assertLayout isFalsey v defaultLayout =
     (if v = Bool False \<or> (truthy v \<and> isFalsey v) then Null
      else if \<not> truthy v \<or> v = Bool True then js_or defaultLayout Null
      else v)"

section \<open>Templates, options and the instance\<close>

text \<open>
  Modelled from the spec: \<^verbatim>\<open>merge\<close> of the package \<^verbatim>\<open>mixin-deep\<close> and \<^verbatim>\<open>omit\<close> of the package
  \<^verbatim>\<open>omit-keys\<close>, which the source requires and which are not part of it. The spec has the first
  merge mappings, later keys winning, and the second strip keys from a mapping. Objects of
  data (\<^verbatim>\<open>locals\<close>, \<^verbatim>\<open>data\<close>) are maps from keys to values; the values are primitive, so a deep
  merge copies every key of the source over the target.
\<close>

type_synonym obj = "string \<rightharpoonup> jsval"

definition mixin_deep :: "obj \<Rightarrow> obj \<Rightarrow> obj" where
  "mixin_deep a b = a ++ b"

definition omit :: "obj \<Rightarrow> string list \<Rightarrow> obj" where
  "omit d ks = d |` (- set ks)"

text \<open>
  A record of the cache. \<^verbatim>\<open>content\<close> is \<^verbatim>\<open>None\<close> when the key is absent; \<^verbatim>\<open>layout\<close> is
  \<^verbatim>\<open>Undefined\<close> when it is absent.
\<close>

record template =
  content :: "string option"
  layout :: jsval
  data :: "obj option"
  tlocals :: "obj option"

text \<open>The keys \<^verbatim>\<open>delims\<close>, \<^verbatim>\<open>tag\<close> and \<^verbatim>\<open>sep\<close> of an object passed to \<^verbatim>\<open>makeTag\<close>.\<close>

record tagopts =
  tdelims :: "(string \<times> string) option"
  ttag :: "string option"
  tsep :: "string option"

text \<open>An \<^verbatim>\<open>options\<close> argument: every key may be absent.\<close>

record options_arg =
  a_locals :: "obj option"
  a_omitKeys :: "string list option"
  a_mergeFn :: "(obj \<Rightarrow> obj \<Rightarrow> obj) option"
  a_layoutDelims :: "(string \<times> string) option"
  a_defaultTag :: "tagopts option"
  a_defaultLayout :: "jsval option"
  a_delims :: "(string \<times> string) option"
  a_tag :: "string option"
  a_sep :: "string option"
  a_flags :: "string option"

text \<open>
  \<^verbatim>\<open>this.options\<close>: the constructor assigns \<^verbatim>\<open>locals\<close>, \<^verbatim>\<open>omitKeys\<close>, \<^verbatim>\<open>mergeFn\<close>,
  \<^verbatim>\<open>layoutDelims\<close> and \<^verbatim>\<open>defaultTag\<close>, so these keys are always present. \<^verbatim>\<open>mergeFn\<close> is
  called for its effect on its first argument: the function gives that object after the call.
\<close>

record options =
  locals :: obj
  omitKeys :: "string list"
  mergeFn :: "obj \<Rightarrow> obj \<Rightarrow> obj"
  layoutDelims :: "string \<times> string"
  defaultTag :: tagopts
  defaultLayout :: "jsval option"
  delims :: "(string \<times> string) option"
  tag :: "string option"
  sep :: "string option"
  flags :: "string option"

text \<open>
  A regular expression. \<^verbatim>\<open>Pieces p g\<close> is one that \<^verbatim>\<open>makeRegex\<close> builds from plain delimiters:
  a sequence of characters and of \<^verbatim>\<open>\s\<close>, each possibly under \<^verbatim>\<open>*\<close>, with the flag \<^verbatim>\<open>g\<close> set or
  not. Every other one is \<^verbatim>\<open>Native f\<close>, an expression of the JavaScript engine given by what
  \<^verbatim>\<open>String.prototype.replace\<close> does with it: \<^verbatim>\<open>f subject replacement\<close> is
  \<^verbatim>\<open>subject.replace(regex, replacement)\<close>.
\<close>

datatype atom = Lit char | WS

datatype piece = One atom | Star atom

datatype regex = Pieces "piece list" bool | Native "string \<Rightarrow> string \<Rightarrow> string"

text \<open>
  \<^verbatim>\<open>new RegExp(source, flags)\<close> of the JavaScript engine, for the expressions that are not
  modelled piece by piece: a parameter, \<^verbatim>\<open>None\<close> when the constructor throws.
\<close>

type_synonym regexp_fn = "string \<Rightarrow> string \<Rightarrow> (string \<Rightarrow> string \<Rightarrow> string) option"

text \<open>The instance: \<^verbatim>\<open>this.options\<close>, \<^verbatim>\<open>this.cache\<close> and \<^verbatim>\<open>this.regex\<close>.\<close>

record layouts =
  options :: options
  cache :: "string \<rightharpoonup> template"
  regex :: "regex option"

text \<open>
  \<^verbatim>\<open>merge(a, b)\<close> on the keys of \<^verbatim>\<open>makeTag\<close>'s argument, and \<^verbatim>\<open>merge(target, options)\<close> with
  \<^verbatim>\<open>this.options\<close> as the target: a key of the source replaces the target's, and the plain
  objects \<^verbatim>\<open>locals\<close> and \<^verbatim>\<open>defaultTag\<close> are merged key by key.
\<close>

definition override :: "'a option \<Rightarrow> 'a option \<Rightarrow> 'a option" where
  "override a b = (case b of None \<Rightarrow> a | Some v \<Rightarrow> Some v)"

definition merge_tagopts :: "tagopts \<Rightarrow> tagopts \<Rightarrow> tagopts" where
  "merge_tagopts a b =
     \<lparr>tdelims = override (tdelims a) (tdelims b),
      ttag = override (ttag a) (ttag b),
      tsep = override (tsep a) (tsep b)\<rparr>"

definition merge_options :: "options \<Rightarrow> options_arg option \<Rightarrow> options" where
  "merge_options t arg =
     (case arg of
        None \<Rightarrow> t
      | Some a \<Rightarrow>
          \<lparr>locals = (case a_locals a of None \<Rightarrow> locals t | Some l \<Rightarrow> mixin_deep (locals t) l),
           omitKeys = (case a_omitKeys a of None \<Rightarrow> omitKeys t | Some k \<Rightarrow> k),
           mergeFn = (case a_mergeFn a of None \<Rightarrow> mergeFn t | Some f \<Rightarrow> f),
           layoutDelims = (case a_layoutDelims a of None \<Rightarrow> layoutDelims t | Some d \<Rightarrow> d),
           defaultTag =
             (case a_defaultTag a of None \<Rightarrow> defaultTag t
              | Some d \<Rightarrow> merge_tagopts (defaultTag t) d),
           defaultLayout = override (defaultLayout t) (a_defaultLayout a),
           delims = override (delims t) (a_delims a),
           tag = override (tag t) (a_tag a),
           sep = override (sep t) (a_sep a),
           flags = override (flags t) (a_flags a)\<rparr>)"

text \<open>
  \<^verbatim>\<open>merge({}, this.options, options)\<close> copies the keys of \<^verbatim>\<open>this.options\<close> into the new object by
  reference, and then merges the plain objects of \<^verbatim>\<open>options\<close> into what it finds there: the
  \<^verbatim>\<open>locals\<close> and the \<^verbatim>\<open>defaultTag\<close> of the instance itself. The result of the call is
  \<^verbatim>\<open>merge_options\<close>; \<^verbatim>\<open>alias_merge\<close> is \<^verbatim>\<open>this.options\<close> after it.
\<close>

definition alias_merge :: "options \<Rightarrow> options_arg option \<Rightarrow> options" where
  "alias_merge t arg =
     t\<lparr>locals := locals (merge_options t arg), defaultTag := defaultTag (merge_options t arg)\<rparr>"

text \<open>\<^verbatim>\<open>this.options\<close> passed as an \<^verbatim>\<open>options\<close> argument (\<^verbatim>\<open>opts\<close> in \<^verbatim>\<open>stack\<close>).\<close>

definition as_arg :: "options \<Rightarrow> options_arg" where
  "as_arg t =
     \<lparr>a_locals = Some (locals t), a_omitKeys = Some (omitKeys t), a_mergeFn = Some (mergeFn t),
      a_layoutDelims = Some (layoutDelims t), a_defaultTag = Some (defaultTag t),
      a_defaultLayout = defaultLayout t, a_delims = delims t, a_tag = tag t, a_sep = sep t,
      a_flags = flags t\<rparr>"

definition no_options :: options_arg where
  "no_options =
     \<lparr>a_locals = None, a_omitKeys = None, a_mergeFn = None, a_layoutDelims = None,
      a_defaultTag = None, a_defaultLayout = None, a_delims = None, a_tag = None,
      a_sep = None, a_flags = None\<rparr>"

section \<open>The constructor\<close>

text \<open>
  \<^verbatim>\<open>
  function Layouts(options) {
    this.options = options || {};
    this.cache = this.options.cache || {};
    this.defaultOptions(this.options);
  }
  Layouts.prototype.defaultOptions = function () {
    this.option('locals', {});
    this.option('omitKeys', ['mergeFn', 'content', 'delims', 'layout']);
    this.option('mergeFn', merge);
    this.option('layoutDelims', ['{%=','%}']);
    this.option('defaultTag', {delims: ['{%=', '%}'], tag: 'body'});
  };
  \<close>
  \<^verbatim>\<open>this.option(key, value)\<close> assigns \<^verbatim>\<open>this.options[key]\<close>, so the five keys replace what the
  caller passed. The key \<^verbatim>\<open>cache\<close> of the constructor's options is the second argument here;
  an \<^verbatim>\<open>options\<close> argument of a later call has no key \<^verbatim>\<open>cache\<close>.
\<close>

definition defaultOptions :: "options_arg \<Rightarrow> options" where
  "defaultOptions a =
     \<lparr>locals = Map.empty,
      omitKeys = [''mergeFn'', ''content'', ''delims'', ''layout''],
      mergeFn = mixin_deep,
      layoutDelims = (''{%='', ''%}''),
      defaultTag = \<lparr>tdelims = Some (''{%='', ''%}''), ttag = Some ''body'', tsep = None\<rparr>,
      defaultLayout = a_defaultLayout a,
      delims = a_delims a,
      tag = a_tag a,
      sep = a_sep a,
      flags = a_flags a\<rparr>"

definition Layouts :: "options_arg option \<Rightarrow> (string \<rightharpoonup> template) option \<Rightarrow> layouts" where
  "Layouts arg c =
     \<lparr>options = defaultOptions (case arg of None \<Rightarrow> no_options | Some a \<Rightarrow> a),
      cache = (case c of None \<Rightarrow> Map.empty | Some m \<Rightarrow> m),
      regex = None\<rparr>"

section \<open>createStack\<close>

text \<open>
  \<^verbatim>\<open>this.cache[key]\<close>. The cache is a plain object: a key that is not its own is looked up
  in \<^verbatim>\<open>Object.prototype\<close>, which holds functions (and itself, under \<^verbatim>\<open>__proto__\<close>). Such a value
  is truthy and has none of the keys \<^verbatim>\<open>content\<close>, \<^verbatim>\<open>layout\<close>, \<^verbatim>\<open>data\<close> and \<^verbatim>\<open>locals\<close>.
\<close>

definition inherited_keys :: "string list" where
  "inherited_keys =
     [''constructor'', ''toString'', ''toLocaleString'', ''valueOf'', ''hasOwnProperty'',
      ''isPrototypeOf'', ''propertyIsEnumerable'', ''__proto__'', ''__defineGetter__'',
      ''__defineSetter__'', ''__lookupGetter__'', ''__lookupSetter__'']"

definition inherited :: template where
  "inherited = \<lparr>content = None, layout = Undefined, data = None, tlocals = None\<rparr>"

definition cache_get :: "(string \<rightharpoonup> template) \<Rightarrow> string \<Rightarrow> template option" where
  "cache_get c k =
     (case c k of
        Some t \<Rightarrow> Some t
      | None \<Rightarrow> if k \<in> set inherited_keys then Some inherited else None)"

text \<open>
  \<^verbatim>\<open>
  Layouts.prototype.createStack = function (name, options) {
    var opts = merge({}, this.options, options);
    name = this.assertLayout(name, this.option('defaultLayout'));
    var template = {};
    var stack = [];
    var prev = null;
    while (name && (prev !== name) && (template = this.cache[name])) {
      stack.unshift(name);
      prev = name;
      var layout = template.layout || (template.data && template.data.layout);
      name = this.assertLayout(layout, opts.defaultLayout);
    }
    return stack;
  };
  \<close>
  The loop may run forever, so it is a partial function: \<^verbatim>\<open>None\<close> is the call that does not
  return. Its argument \<^verbatim>\<open>get\<close> is \<^verbatim>\<open>this.cache[key]\<close>. \<^verbatim>\<open>createStack\<close> returns the stack and the
  instance as the first line leaves it.
\<close>

text \<open>An absent option read as a value: \<^verbatim>\<open>undefined\<close>.\<close>

definition opt_val :: "jsval option \<Rightarrow> jsval" where
  "opt_val v = (case v of None \<Rightarrow> Undefined | Some x \<Rightarrow> x)"

text \<open>\<^verbatim>\<open>template.layout || (template.data && template.data.layout)\<close>\<close>

definition layout_ref :: "template \<Rightarrow> jsval" where
  "layout_ref t =
     js_or (layout t) (case data t of None \<Rightarrow> Undefined | Some d \<Rightarrow> opt_val (d ''layout''))"

partial_function (option) createStack_loop ::
  "(jsval \<Rightarrow> bool) \<Rightarrow> (string \<Rightarrow> template option) \<Rightarrow> jsval \<Rightarrow> jsval list \<Rightarrow> jsval \<Rightarrow> jsval
    \<Rightarrow> jsval list option" where
  "createStack_loop isFalsey get dflt stack prev name =
     (if truthy name \<and> prev \<noteq> name then
        (case get (toKey name) of
           None \<Rightarrow> Some stack
         | Some t \<Rightarrow>
             createStack_loop isFalsey get dflt (name # stack) name
               (assertLayout isFalsey (layout_ref t) dflt))
      else Some stack)"

declare createStack_loop.simps [code]

definition createStack ::
  "(jsval \<Rightarrow> bool) \<Rightarrow> layouts \<Rightarrow> jsval \<Rightarrow> options_arg option \<Rightarrow> (jsval list \<times> layouts) option"
  where
  "createStack isFalsey this name arg =
     (case createStack_loop isFalsey (cache_get (cache this))
             (opt_val (defaultLayout (merge_options (options this) arg))) [] Null
             (assertLayout isFalsey name (opt_val (defaultLayout (options this)))) of
        None \<Rightarrow> None
      | Some st \<Rightarrow> Some (st, this\<lparr>options := alias_merge (options this) arg\<rparr>))"

section \<open>makeTag and makeRegex\<close>

text \<open>
  \<^verbatim>\<open>
  Layouts.prototype.makeTag = function (options) {
    var defaultTag = this.option('defaultTag');
    var opts = merge({}, defaultTag, options);
    opts.delims = opts.delims || ['{%=', '%}'];
    opts.tag = opts.tag || 'body';
    return [opts.delims[0], opts.tag, opts.delims[1]].join(opts.sep || ' ');
  };
  \<close>
\<close>

definition str_or :: "string option \<Rightarrow> string \<Rightarrow> string" where
  "str_or a b = (case a of None \<Rightarrow> b | Some s \<Rightarrow> if s = [] then b else s)"

definition makeTag :: "layouts \<Rightarrow> tagopts \<Rightarrow> string" where
  "makeTag this arg =
     (let opts = merge_tagopts (defaultTag (options this)) arg;
          d = (case tdelims opts of None \<Rightarrow> (''{%='', ''%}'') | Some p \<Rightarrow> p);
          t = str_or (ttag opts) ''body'';
          s = str_or (tsep opts) '' ''
      in fst d @ s @ t @ s @ snd d)"

text \<open>
  \<^verbatim>\<open>
  Layouts.prototype.makeRegex = function (options) {
    var opts = merge({sep: '\\s*'}, this.options, options);
    var tag = this.makeTag(opts).replace(/[\]()[{|}]/g, '\\$&');
    return new RegExp(tag, opts.flags || 'g');
  };
  \<close>
  \<^verbatim>\<open>escape_tag\<close> is the replacement by \<^verbatim>\<open>'\\$&'\<close>. \<^verbatim>\<open>parse_regex\<close> reads the source of a
  regular expression made of characters and \<^verbatim>\<open>\s\<close>, each possibly under \<^verbatim>\<open>*\<close>, and
  \<^verbatim>\<open>parse_flags\<close> the flags \<^verbatim>\<open>g\<close> and \<^verbatim>\<open>m\<close> (\<^verbatim>\<open>m\<close> changes nothing without anchors); they are
  \<^verbatim>\<open>None\<close> on every other source and on every other flag, and then \<^verbatim>\<open>new_RegExp\<close> asks the
  engine. The merge in the first line changes the instance (see \<^verbatim>\<open>alias_merge\<close>) before
  \<^verbatim>\<open>makeTag\<close> reads its \<^verbatim>\<open>defaultTag\<close>; \<^verbatim>\<open>makeRegex\<close> returns the expression, \<^verbatim>\<open>None\<close> when
  the constructor throws, and the instance.
\<close>

definition backslash :: char where
  "backslash = CHR 0x5C"

fun escape_tag :: "string \<Rightarrow> string" where
  "escape_tag [] = []"
| "escape_tag (c # cs) =
     (if c \<in> set ''](){[|}'' then backslash # c # escape_tag cs else c # escape_tag cs)"

text \<open>
  The atom after a backslash: \<^verbatim>\<open>\s\<close>, or an escaped punctuation character of ASCII (a letter,
  a digit, an underscore or any other character after a backslash is left to the engine).
\<close>

definition punct :: "char \<Rightarrow> bool" where
  "punct c =
     (let n = (of_char c :: nat)
      in (32 \<le> n \<and> n \<le> 47) \<or> (58 \<le> n \<and> n \<le> 64) \<or> (91 \<le> n \<and> n \<le> 94) \<or> n = 96
         \<or> (123 \<le> n \<and> n \<le> 126))"

definition escaped :: "char \<Rightarrow> atom option" where
  "escaped e = (if e = CHR ''s'' then Some WS else if punct e then Some (Lit e) else None)"

definition special :: "char \<Rightarrow> bool" where
  "special c = (c \<in> set ''.*+?^$()[]{}|'')"

fun parse_regex :: "string \<Rightarrow> piece list option" where
  "parse_regex [] = Some []"
| "parse_regex (c # cs) =
     (if c = backslash then
        (case cs of
           [] \<Rightarrow> None
         | e # r \<Rightarrow>
             (case escaped e of
                None \<Rightarrow> None
              | Some a \<Rightarrow>
                  (case r of
                     [] \<Rightarrow> Some [One a]
                   | q # r' \<Rightarrow>
                       if q = CHR ''*'' then map_option (Cons (Star a)) (parse_regex r')
                       else map_option (Cons (One a)) (parse_regex (q # r')))))
      else if special c then None
      else
        (case cs of
           [] \<Rightarrow> Some [One (Lit c)]
         | q # r' \<Rightarrow>
             if q = CHR ''*'' then map_option (Cons (Star (Lit c))) (parse_regex r')
             else map_option (Cons (One (Lit c))) (parse_regex (q # r'))))"

definition parse_flags :: "string \<Rightarrow> bool option" where
  "parse_flags f =
     (if distinct f \<and> set f \<subseteq> {CHR ''g'', CHR ''m''} then Some (CHR ''g'' \<in> set f) else None)"

definition new_RegExp :: "regexp_fn \<Rightarrow> string \<Rightarrow> string \<Rightarrow> regex option" where
  "new_RegExp regexp src fl =
     (case parse_regex src of
        None \<Rightarrow> map_option Native (regexp src fl)
      | Some p \<Rightarrow>
          (case parse_flags fl of
             None \<Rightarrow> map_option Native (regexp src fl)
           | Some g \<Rightarrow> Some (Pieces p g)))"

definition makeRegex :: "regexp_fn \<Rightarrow> layouts \<Rightarrow> options_arg option \<Rightarrow> regex option \<times> layouts" where
  "makeRegex regexp this arg =
     (let opts = merge_options (options this) arg;
          this1 = this\<lparr>options := alias_merge (options this) arg\<rparr>;
          src = escape_tag
            (makeTag this1
               \<lparr>tdelims = delims opts, ttag = tag opts,
                tsep = override (Some (backslash # ''s*'')) (sep opts)\<rparr>)
      in (new_RegExp regexp src (str_or (flags opts) ''g''), this1))"

section \<open>String.prototype.replace\<close>

text \<open>
  Matching at the start of a string: the number of characters matched, \<^verbatim>\<open>*\<close> greedy and
  backtracking. Characters are code units below 256; \<^verbatim>\<open>\s\<close> is the white space among them.
\<close>

definition white :: "char \<Rightarrow> bool" where
  "white c = ((of_char c :: nat) \<in> {9, 10, 11, 12, 13, 32, 160})"

fun atom_matches :: "atom \<Rightarrow> char \<Rightarrow> bool" where
  "atom_matches (Lit c) x = (x = c)"
| "atom_matches WS x = white x"

fun match_at :: "piece list \<Rightarrow> string \<Rightarrow> nat option" where
  "match_at [] s = Some 0"
| "match_at (One a # ps) [] = None"
| "match_at (One a # ps) (x # xs) =
     (if atom_matches a x then map_option Suc (match_at ps xs) else None)"
| "match_at (Star a # ps) [] = match_at ps []"
| "match_at (Star a # ps) (x # xs) =
     (if atom_matches a x then
        (case match_at (Star a # ps) xs of
           Some n \<Rightarrow> Some (Suc n)
         | None \<Rightarrow> match_at ps (x # xs))
      else match_at ps (x # xs))"

text \<open>
  The replacement string with its patterns \<^verbatim>\<open>$$\<close>, \<^verbatim>\<open>$&\<close>, \<^verbatim>\<open>$`\<close> and \<^verbatim>\<open>$'\<close>; the expression
  has no group, so \<^verbatim>\<open>$1\<close> stays as it is.
\<close>

fun expand :: "string \<Rightarrow> string \<Rightarrow> string \<Rightarrow> string \<Rightarrow> string" where
  "expand [] m b a = []"
| "expand [c] m b a = [c]"
| "expand (c # d # r) m b a =
     (if c = CHR ''$'' then
        (if d = CHR ''$'' then CHR ''$'' # expand r m b a
         else if d = CHR ''&'' then m @ expand r m b a
         else if d = CHR 0x60 then b @ expand r m b a
         else if d = CHR 0x27 then a @ expand r m b a
         else c # expand (d # r) m b a)
      else c # expand (d # r) m b a)"

text \<open>
  \<^verbatim>\<open>subject.replace(regex, replacement)\<close> for the pieces \<^verbatim>\<open>p\<close> with the flag \<^verbatim>\<open>g\<close> set or not,
  scanning from the left; \<^verbatim>\<open>pre\<close> is the part of the subject already passed. After an empty
  match the scan moves one character on.
\<close>

fun replace_from :: "piece list \<Rightarrow> bool \<Rightarrow> string \<Rightarrow> string \<Rightarrow> string \<Rightarrow> string" where
  "replace_from p g repl pre [] =
     (case match_at p [] of
        None \<Rightarrow> []
      | Some n \<Rightarrow> expand repl [] pre [])"
| "replace_from p g repl pre (x # xs) =
     (case match_at p (x # xs) of
        None \<Rightarrow> x # replace_from p g repl (pre @ [x]) xs
      | Some n \<Rightarrow>
          expand repl (take n (x # xs)) pre (drop n (x # xs)) @
          (if \<not> g then drop n (x # xs)
           else if n = 0 then x # replace_from p g repl (pre @ [x]) xs
           else replace_from p g repl (pre @ take n (x # xs)) (drop (n - 1) xs)))"

fun js_replace :: "regex \<Rightarrow> string \<Rightarrow> string \<Rightarrow> string" where
  "js_replace (Pieces p g) subject repl = replace_from p g repl [] subject"
| "js_replace (Native f) subject repl = f subject repl"

section \<open>Folding the stack\<close>

text \<open>
  What a call throws: \<^verbatim>\<open>new RegExp\<close> on a source or on flags that the engine refuses, the
  template engine on a string it cannot expand, and a property read on \<^verbatim>\<open>undefined\<close>.
\<close>

datatype error = RegExpError | TemplateError | TypeError

text \<open>
  The template engine is not part of the source: \<^verbatim>\<open>_.template(str, ctx, settings)\<close> of
  \<^verbatim>\<open>lodash\<close>, with the settings that \<^verbatim>\<open>delims.templates\<close> builds. It is a parameter, \<^verbatim>\<open>None\<close>
  when it throws. \<^verbatim>\<open>ctx\<close> is \<^verbatim>\<open>merge({}, context, locals, {body: tag})\<close>: the context
  object and the variables merged over it. The settings are those of \<^verbatim>\<open>delims.templates\<close> for
  a pair of delimiters, with the options merged in.
\<close>

record render_ctx =
  ctx_context :: layouts
  ctx_vars :: obj

record render_settings =
  set_delims :: "(string \<times> string) option"
  set_options :: options_arg

type_synonym template_fn = "string \<Rightarrow> render_ctx \<Rightarrow> render_settings \<Rightarrow> string option"

text \<open>
  \<^verbatim>\<open>
  Layouts.prototype._mergeData = function (template) {
    var omitKeys = this.option('omitKeys');
    var mergeFn = this.option('mergeFn');
    var locals = this.option('locals');
    var data = {};
    merge(data, template.locals);
    merge(data, template.data);
    mergeFn(locals, omit(data, omitKeys));
    return this;
  };
  \<close>
  The function changes \<^verbatim>\<open>this.options.locals\<close> and returns \<^verbatim>\<open>this\<close>: the model returns the
  instance after the call, which is both. \<^verbatim>\<open>template_data\<close> is \<^verbatim>\<open>data\<close> after the two merges.
\<close>

definition template_data :: "template \<Rightarrow> obj" where
  "template_data t =
     (let d0 = (case tlocals t of None \<Rightarrow> Map.empty | Some l \<Rightarrow> mixin_deep Map.empty l)
      in case data t of None \<Rightarrow> d0 | Some x \<Rightarrow> mixin_deep d0 x)"

definition mergeData :: "layouts \<Rightarrow> template \<Rightarrow> layouts" where
  "mergeData this t =
     this\<lparr>options := (options this)
       \<lparr>locals := mergeFn (options this) (locals (options this))
          (omit (template_data t) (omitKeys (options this)))\<rparr>\<rparr>"

text \<open>
  \<^verbatim>\<open>
  Layouts.prototype._defaultLayout = function (context, options) {
    var tagopts = this.option('defaultTag');
    options = merge({}, options);
    if (hasOwn(options, 'delims') && hasOwn(options, 'tag')) {
      tagopts = pick(options, ['delims', 'tag']);
    }
    var settings = delims.templates(tagopts.delims);
    var tag = this.makeTag(tagopts);
    merge(settings, options, {interpolate: settings.evaluate});
    return {variable: tag, context: options, settings: settings};
  };
  Layouts.prototype.renderLayout = function (str, context, options) {
    var layout = this._defaultLayout(context, options);
    var ctx = merge({}, context, this.option('locals'), {body: layout.variable});
    return _.template(str, ctx, layout.settings);
  };
  \<close>
  In \<^verbatim>\<open>stack\<close> the context is what \<^verbatim>\<open>_mergeData\<close> returned, the instance.
\<close>

definition defaultLayout_fn :: "layouts \<Rightarrow> options_arg \<Rightarrow> string \<times> render_settings" where
  "defaultLayout_fn this arg =
     (let tagopts =
            (if a_delims arg \<noteq> None \<and> a_tag arg \<noteq> None
             then \<lparr>tdelims = a_delims arg, ttag = a_tag arg, tsep = None\<rparr>
             else defaultTag (options this))
      in (makeTag this tagopts, \<lparr>set_delims = tdelims tagopts, set_options = arg\<rparr>))"

definition renderLayout ::
  "template_fn \<Rightarrow> layouts \<Rightarrow> string \<Rightarrow> layouts \<Rightarrow> options_arg \<Rightarrow> string option" where
  "renderLayout tmpl this str context arg =
     (let lay = defaultLayout_fn this arg;
          ctx = \<lparr>ctx_context = context,
                 ctx_vars = mixin_deep (locals (options this)) [''body'' \<mapsto> Str (fst lay)]\<rparr>
      in tmpl str ctx (snd lay))"

text \<open>
  \<^verbatim>\<open>
  Layouts.prototype.stack = function (name, options) {
    var stack = this.createStack(name, options);
    var opts = merge(this.options, options);
    var tag = this.makeTag(opts) || this.defaultTag;
    this.regex = this.makeRegex(opts);
    return reduce(stack, function (acc, value) {
      var content = acc.content || tag;
      var tmpl = this.cache[value];
      var data = this._mergeData(tmpl);
      content = content.replace(this.regex, tmpl.content);
      content = this.renderLayout(content, data, opts);
      acc.data = data;
      acc.content = content;
      acc.regex = this.regex;
      acc.tag = tag;
      return acc;
    }.bind(this), {});
  };
  \<close>
  \<^verbatim>\<open>reduce\<close> (the package \<^verbatim>\<open>reduce-object\<close>) calls the function on the elements of the array
  from the first to the last, starting with the empty object.
  \<^verbatim>\<open>acc\<close> is the record \<^verbatim>\<open>stack_result\<close>, every key absent at first. \<^verbatim>\<open>acc.data\<close> is the
  instance, since that is what \<^verbatim>\<open>_mergeData\<close> returns. \<^verbatim>\<open>opts\<close> is \<^verbatim>\<open>this.options\<close> itself,
  so it is read from the instance at each step. \<^verbatim>\<open>makeTag\<close> never returns the empty string,
  so \<^verbatim>\<open>this.defaultTag\<close> is never read. A replacement that is \<^verbatim>\<open>undefined\<close> is the string
  \<^verbatim>\<open>'undefined'\<close>. When \<^verbatim>\<open>new RegExp\<close> throws, \<^verbatim>\<open>this.regex\<close> is not assigned.
\<close>

record stack_result =
  r_data :: "layouts option"
  r_content :: "string option"
  r_regex :: "regex option"
  r_tag :: "string option"

definition empty_result :: stack_result where
  "empty_result = \<lparr>r_data = None, r_content = None, r_regex = None, r_tag = None\<rparr>"

definition tag_args :: "options \<Rightarrow> tagopts" where
  "tag_args opts = \<lparr>tdelims = delims opts, ttag = tag opts, tsep = sep opts\<rparr>"

definition reduce_step ::
  "template_fn \<Rightarrow> string \<Rightarrow> regex \<Rightarrow> layouts \<Rightarrow> stack_result \<Rightarrow> jsval
    \<Rightarrow> (error + stack_result) \<times> layouts" where
  "reduce_step tmpl tg rx this acc v =
     (case cache_get (cache this) (toKey v) of
        None \<Rightarrow> (Inl TypeError, this)
      | Some t \<Rightarrow>
          (let this1 = mergeData this t;
               c0 = str_or (r_content acc) tg;
               c1 = js_replace rx c0 (case content t of None \<Rightarrow> ''undefined'' | Some s \<Rightarrow> s)
           in case renderLayout tmpl this1 c1 this1 (as_arg (options this1)) of
                None \<Rightarrow> (Inl TemplateError, this1)
              | Some c2 \<Rightarrow>
                  (Inr \<lparr>r_data = Some this1, r_content = Some c2, r_regex = Some rx,
                        r_tag = Some tg\<rparr>, this1)))"

fun reduce_stack ::
  "template_fn \<Rightarrow> string \<Rightarrow> regex \<Rightarrow> layouts \<Rightarrow> stack_result \<Rightarrow> jsval list
    \<Rightarrow> (error + stack_result) \<times> layouts" where
  "reduce_stack tmpl tg rx this acc [] = (Inr acc, this)"
| "reduce_stack tmpl tg rx this acc (v # vs) =
     (case reduce_step tmpl tg rx this acc v of
        (Inl e, this') \<Rightarrow> (Inl e, this')
      | (Inr acc', this') \<Rightarrow> reduce_stack tmpl tg rx this' acc' vs)"

definition stack ::
  "(jsval \<Rightarrow> bool) \<Rightarrow> regexp_fn \<Rightarrow> template_fn \<Rightarrow> layouts \<Rightarrow> jsval \<Rightarrow> options_arg option
    \<Rightarrow> ((error + stack_result) \<times> layouts) option" where
  "stack isFalsey regexp tmpl this name arg =
     (case createStack isFalsey this name arg of
        None \<Rightarrow> None
      | Some (st, this0) \<Rightarrow>
          (let this1 = this0\<lparr>options := merge_options (options this0) arg\<rparr>;
               tg = makeTag this1 (tag_args (options this1))
           in case makeRegex regexp this1 (Some (as_arg (options this1))) of
                (None, this2) \<Rightarrow> Some (Inl RegExpError, this2)
              | (Some rx, this2) \<Rightarrow>
                  Some (reduce_stack tmpl tg rx (this2\<lparr>regex := Some rx\<rparr>) empty_result st)))"

section \<open>replaceTag and render\<close>

text \<open>
  \<^verbatim>\<open>
  Layouts.prototype.replaceTag = function (str, content, options) {
    return content.replace(this.makeRegex(options), str);
  };
  Layouts.prototype.render = function (content, name, options) {
    var layout = this.stack(name, options);
    if (layout.content) {
      content = layout.content.replace(this.regex, content);
    }
    return {data: layout.data, content: content};
  };
  \<close>
  \<^verbatim>\<open>stack\<close> assigns \<^verbatim>\<open>this.regex\<close> before it returns, so \<^verbatim>\<open>render\<close> never reads an absent one:
  the branch for it below is never taken.
\<close>

definition replaceTag ::
  "regexp_fn \<Rightarrow> layouts \<Rightarrow> string \<Rightarrow> string \<Rightarrow> options_arg option \<Rightarrow> (error + string) \<times> layouts"
  where
  "replaceTag regexp this str cont arg =
     (case makeRegex regexp this arg of
        (None, this1) \<Rightarrow> (Inl RegExpError, this1)
      | (Some rx, this1) \<Rightarrow> (Inr (js_replace rx cont str), this1))"

record rendered =
  out_data :: "layouts option"
  out_content :: string

definition render ::
  "(jsval \<Rightarrow> bool) \<Rightarrow> regexp_fn \<Rightarrow> template_fn \<Rightarrow> layouts \<Rightarrow> string \<Rightarrow> jsval
    \<Rightarrow> options_arg option \<Rightarrow> ((error + rendered) \<times> layouts) option" where
  "render isFalsey regexp tmpl this cont name arg =
     (case stack isFalsey regexp tmpl this name arg of
        None \<Rightarrow> None
      | Some (Inl e, this') \<Rightarrow> Some (Inl e, this')
      | Some (Inr lay, this') \<Rightarrow>
          (case regex this' of
             None \<Rightarrow> Some (Inl RegExpError, this')
           | Some rx \<Rightarrow>
               Some (Inr \<lparr>out_data = r_data lay,
                          out_content =
                            (if str_or (r_content lay) [] \<noteq> []
                             then js_replace rx (str_or (r_content lay) []) cont
                             else cont)\<rparr>, this')))"

text \<open>
  What a caller reads from a call that returned: the stack of \<^verbatim>\<open>createStack\<close>, the content of
  \<^verbatim>\<open>render\<close>'s result, and the value of a key of the instance's \<^verbatim>\<open>options.locals\<close> afterwards.
\<close>

definition stack_of :: "(jsval list \<times> layouts) option \<Rightarrow> jsval list option" where
  "stack_of x = (case x of Some (st, this') \<Rightarrow> Some st | None \<Rightarrow> None)"

definition rendered_content :: "((error + rendered) \<times> layouts) option \<Rightarrow> string option" where
  "rendered_content x =
     (case x of Some (Inr r, this') \<Rightarrow> Some (out_content r) | Some (Inl e, this') \<Rightarrow> None
      | None \<Rightarrow> None)"

definition local_after :: "('a \<times> layouts) option \<Rightarrow> string \<Rightarrow> jsval option" where
  "local_after x k = (case x of Some (out, this') \<Rightarrow> locals (options this') k | None \<Rightarrow> None)"

text \<open>
  Two successive calls of \<^verbatim>\<open>stack\<close> on the same instance (the second one is made whatever the
  first one returned or threw).
\<close>

definition stack_twice ::
  "(jsval \<Rightarrow> bool) \<Rightarrow> regexp_fn \<Rightarrow> template_fn \<Rightarrow> layouts \<Rightarrow> jsval \<Rightarrow> jsval
    \<Rightarrow> ((error + stack_result) \<times> layouts) option" where
  "stack_twice isFalsey regexp tmpl this name1 name2 =
     (case stack isFalsey regexp tmpl this name1 None of
        None \<Rightarrow> None
      | Some (out, this1) \<Rightarrow> stack isFalsey regexp tmpl this1 name2 None)"

section \<open>The names a call visits, and the data it merges\<close>

text \<open>
  \<^verbatim>\<open>visits isFalsey get dflt prev name ns\<close>: started with \<^verbatim>\<open>prev\<close> and \<^verbatim>\<open>name\<close>, the loop of
  \<^verbatim>\<open>createStack\<close> pushes the names \<^verbatim>\<open>ns\<close>, in this order, and then its condition fails.
\<close>

fun visits ::
  "(jsval \<Rightarrow> bool) \<Rightarrow> (string \<Rightarrow> template option) \<Rightarrow> jsval \<Rightarrow> jsval \<Rightarrow> jsval \<Rightarrow> jsval list
    \<Rightarrow> bool" where
  "visits isFalsey get dflt prev name [] =
     (case get (toKey name) of
        None \<Rightarrow> True
      | Some t \<Rightarrow> \<not> truthy name \<or> prev = name)"
| "visits isFalsey get dflt prev name (n # ns) =
     (case get (toKey name) of
        None \<Rightarrow> False
      | Some t \<Rightarrow>
          n = name \<and> truthy name \<and> prev \<noteq> name
          \<and> visits isFalsey get dflt name (assertLayout isFalsey (layout_ref t) dflt) ns)"

text \<open>
  \<^verbatim>\<open>leads_to isFalsey get dflt prev name ns n\<close>: started with \<^verbatim>\<open>prev\<close> and \<^verbatim>\<open>name\<close>, the loop
  pushes the names \<^verbatim>\<open>ns\<close> and then holds the layout reference \<^verbatim>\<open>n\<close> as its next name.
\<close>

fun leads_to ::
  "(jsval \<Rightarrow> bool) \<Rightarrow> (string \<Rightarrow> template option) \<Rightarrow> jsval \<Rightarrow> jsval \<Rightarrow> jsval \<Rightarrow> jsval list
    \<Rightarrow> jsval \<Rightarrow> bool" where
  "leads_to isFalsey get dflt prev name [] n = (name = n)"
| "leads_to isFalsey get dflt prev name (x # xs) n =
     (case get (toKey name) of
        None \<Rightarrow> False
      | Some t \<Rightarrow>
          x = name \<and> truthy name \<and> prev \<noteq> name
          \<and> leads_to isFalsey get dflt name (assertLayout isFalsey (layout_ref t) dflt) xs n)"

text \<open>
  What the fold over a stack leaves in \<^verbatim>\<open>this.options.locals\<close>, started from \<^verbatim>\<open>l\<close>: for each name,
  in the order of the stack, \<^verbatim>\<open>mergeFn\<close> is called with the data of its record, the keys of
  \<^verbatim>\<open>omitKeys\<close> left out. \<^verbatim>\<open>stack_data\<close> is that data, merged in this order.
\<close>

fun fold_locals :: "options \<Rightarrow> (string \<rightharpoonup> template) \<Rightarrow> jsval list \<Rightarrow> obj \<Rightarrow> obj" where
  "fold_locals opts c [] l = l"
| "fold_locals opts c (v # vs) l =
     fold_locals opts c vs
       (case cache_get c (toKey v) of
          None \<Rightarrow> l
        | Some t \<Rightarrow> mergeFn opts l (omit (template_data t) (omitKeys opts)))"

fun stack_data :: "(string \<rightharpoonup> template) \<Rightarrow> string list \<Rightarrow> jsval list \<Rightarrow> obj" where
  "stack_data c ks [] = Map.empty"
| "stack_data c ks (v # vs) =
     (case cache_get c (toKey v) of
        None \<Rightarrow> stack_data c ks vs
      | Some t \<Rightarrow> omit (template_data t) ks ++ stack_data c ks vs)"

text \<open>The \<^verbatim>\<open>locals\<close> of the options passed to a call, empty when there are none.\<close>

definition arg_locals :: "options_arg option \<Rightarrow> obj" where
  "arg_locals arg =
     (case arg of
        None \<Rightarrow> Map.empty
      | Some a \<Rightarrow> (case a_locals a of None \<Rightarrow> Map.empty | Some l \<Rightarrow> l))"

text \<open>
  A replacement string holds a pattern when \<^verbatim>\<open>$$\<close>, \<^verbatim>\<open>$&\<close>, \<^verbatim>\<open>$`\<close> or \<^verbatim>\<open>$'\<close> occurs in it.
\<close>

fun has_pattern :: "string \<Rightarrow> bool" where
  "has_pattern [] = False"
| "has_pattern [c] = False"
| "has_pattern (c # d # r) =
     (if c = CHR ''$'' \<and> d \<in> {CHR ''$'', CHR ''&'', CHR 0x60, CHR 0x27} then True
      else has_pattern (d # r))"

section \<open>Example stores\<close>

definition tmpl_of :: "string \<Rightarrow> jsval \<Rightarrow> template" where
  "tmpl_of c l = \<lparr>content = Some c, layout = l, data = None, tlocals = None\<rparr>"

text \<open>\<^verbatim>\<open>{A: {content: '<a>{%= body %}</a>', layout: 'B'}, B: {content: '<b>{%= body %}</b>', layout: null}}\<close>\<close>

definition chain_cache :: "string \<rightharpoonup> template" where
  "chain_cache =
     [''A'' \<mapsto> tmpl_of ''<a>{%= body %}</a>'' (Str ''B''),
      ''B'' \<mapsto> tmpl_of ''<b>{%= body %}</b>'' Null]"


text \<open>\<^verbatim>\<open>{A: {content: '<a>{%= body %}</a>', layout: 'B'}, B: {content: '<b>{%= body %}</b>', layout: 'A'}}\<close>\<close>

definition cycle_cache :: "string \<rightharpoonup> template" where
  "cycle_cache =
     [''A'' \<mapsto> tmpl_of ''<a>{%= body %}</a>'' (Str ''B''),
      ''B'' \<mapsto> tmpl_of ''<b>{%= body %}</b>'' (Str ''A'')]"

text \<open>\<^verbatim>\<open>{A: {content: '<a>{%= body %}</a>', layout: 'missing'}}\<close>\<close>

definition dangling_cache :: "string \<rightharpoonup> template" where
  "dangling_cache = [''A'' \<mapsto> tmpl_of ''<a>{%= body %}</a>'' (Str ''missing'')]"

text \<open>\<^verbatim>\<open>{A: {content: '<a>{%= body %}</a>', layout: 'toString'}}\<close>\<close>

definition toString_cache :: "string \<rightharpoonup> template" where
  "toString_cache = [''A'' \<mapsto> tmpl_of ''<a>{%= body %}</a>'' (Str ''toString'')]"

text \<open>\<^verbatim>\<open>{base: {content: 'before\n{%= body %}\nafter'}}\<close>\<close>

definition base_cache :: "string \<rightharpoonup> template" where
  "base_cache =
     [''base'' \<mapsto> tmpl_of (''before'' @ [CHR 0x0A] @ ''{%= body %}'' @ [CHR 0x0A] @ ''after'')
        Undefined]"

text \<open>
  \<^verbatim>\<open>{a: {content: '{% body %}', data: {title: 'A'}}, b: {content: '{% body %}'}}\<close>
\<close>

definition data_cache :: "string \<rightharpoonup> template" where
  "data_cache =
     [''a'' \<mapsto> \<lparr>content = Some ''{% body %}'', layout = Undefined,
               data = Some [''title'' \<mapsto> Str ''A''], tlocals = None\<rparr>,
      ''b'' \<mapsto> tmpl_of ''{% body %}'' Undefined]"

text \<open>A template engine on strings in which it finds nothing to expand.\<close>

definition plain_template :: template_fn where
  "plain_template str ctx settings = Some str"


text \<open>An engine whose \<^verbatim>\<open>new RegExp\<close> always throws, for calls that never reach it.\<close>

definition no_regexp :: regexp_fn where
  "no_regexp src fl = None"

text \<open>The default body tag, and the regular expression \<^verbatim>\<open>/\{%=\s*body\s*%\}/g\<close>.\<close>

definition body_tag :: string where
  "body_tag = ''{%= body %}''"

definition body_pieces :: "piece list" where
  "body_pieces =
     [One (Lit CHR ''{''), One (Lit CHR ''%''), One (Lit CHR ''=''), Star WS,
      One (Lit CHR ''b''), One (Lit CHR ''o''), One (Lit CHR ''d''), One (Lit CHR ''y''),
      Star WS, One (Lit CHR ''%''), One (Lit CHR ''}'')]"

definition body_regex :: regex where
  "body_regex = Pieces body_pieces True"

text \<open>
  The instance built on \<^verbatim>\<open>data_cache\<close> with default options, after \<^verbatim>\<open>stack('a')\<close>.
\<close>

definition after_a :: layouts where
  "after_a =
     \<lparr>options = (defaultOptions no_options)\<lparr>locals := [''title'' \<mapsto> Str ''A'']\<rparr>,
      cache = data_cache, regex = Some body_regex\<rparr>"

text \<open>
  The options \<^verbatim>\<open>{defaultLayout: 'base'}\<close>, and the instance built on \<^verbatim>\<open>base_cache\<close> with
  default options, after \<^verbatim>\<open>stack(undefined, {defaultLayout: 'base'})\<close>.
\<close>

definition default_base_arg :: options_arg where
  "default_base_arg = no_options\<lparr>a_defaultLayout := Some (Str ''base'')\<rparr>"

definition after_default_base :: layouts where
  "after_default_base =
     \<lparr>options = (defaultOptions no_options)\<lparr>defaultLayout := Some (Str ''base'')\<rparr>,
      cache = base_cache, regex = Some body_regex\<rparr>"

section \<open>Properties of assertLayout\<close>

lemma assertLayout_truthy_or_null:
  "truthy (assertLayout F v d) \<or> assertLayout F v d = Null"
  by (simp add: assertLayout_def js_or_def)


lemma assertLayout_default:
  "\<not> truthy v \<Longrightarrow> v \<noteq> Bool False \<Longrightarrow> assertLayout F v d = js_or d Null"
  by (auto simp: assertLayout_def)

text \<open>
  C3, as the code has it. \<^verbatim>\<open>assertLayout(value, 'base')\<close> returns \<^verbatim>\<open>null\<close> for \<^verbatim>\<open>false\<close> and for
  each of \<^verbatim>\<open>'false'\<close>, \<^verbatim>\<open>'null'\<close>, \<^verbatim>\<open>'nil'\<close>, \<^verbatim>\<open>'no'\<close> that the falsey predicate accepts. For
  \<^verbatim>\<open>''\<close> and \<^verbatim>\<open>0\<close> it returns \<^verbatim>\<open>'base'\<close>: the guard \<^verbatim>\<open>value && isFalsey(value)\<close> never asks
  the predicate about a falsy value, and the second branch gives the default layout.
\<close>

theorem assertLayout_falsey_values:
  "(v = Bool False \<or> (v \<in> {Str ''false'', Str ''null'', Str ''nil'', Str ''no''} \<and> isFalsey v)
      \<longrightarrow> assertLayout isFalsey v (Str ''base'') = Null)
   \<and> assertLayout isFalsey (Str []) (Str ''base'') = Str ''base''
   \<and> assertLayout isFalsey (Num ''0'') (Str ''base'') = Str ''base''"
  by (auto simp: assertLayout_def js_or_def)

theorem assertLayout_falsey_values_witness:
  "isFalsey_spec (Str ''nil'')
   \<and> assertLayout isFalsey_spec (Str ''nil'') (Str ''base'') = Null
   \<and> assertLayout isFalsey_spec (Str []) (Str ''base'') = Str ''base''
   \<and> assertLayout isFalsey_spec (Num ''0'') (Str ''base'') = Str ''base''"
  using assertLayout_falsey_values [of "Str ''nil''" isFalsey_spec]
  by (simp add: isFalsey_spec_def)

text \<open>
  C3 as stated fails at the empty string (and at \<^verbatim>\<open>0\<close>), also for a falsey predicate that
  accepts it: the result is the default layout.
\<close>

theorem assertLayout_empty_string_counterexample:
  "isFalsey_spec (Str []) \<and> assertLayout isFalsey_spec (Str []) (Str ''base'') \<noteq> Null"
  by (simp add: assertLayout_def js_or_def isFalsey_spec_def)

section \<open>Properties of createStack\<close>

text \<open>The loop returns exactly when it visits a finite list of names, and returns them reversed.\<close>

lemma loop_visits:
  "visits F c d prev name ns \<Longrightarrow> createStack_loop F c d st prev name = Some (rev ns @ st)"
proof (induction ns arbitrary: st prev name)
  case Nil
  then show ?case
    by (subst createStack_loop.simps) (auto split: option.splits)
next
  case (Cons n ns)
  from Cons.prems obtain t where t: "c (toKey name) = Some t" and n: "n = name"
    and c: "truthy name" "prev \<noteq> name"
    and v: "visits F c d name (assertLayout F (layout_ref t) d) ns"
    by (auto split: option.splits)
  show ?case
    by (subst createStack_loop.simps) (simp add: t n c Cons.IH [OF v])
qed

lemma loop_returns:
  assumes "createStack_loop F c d st prev name = Some r"
  shows "\<exists>ns. visits F c d prev name ns \<and> r = rev ns @ st"
proof (rule createStack_loop.raw_induct
    [where P = "\<lambda>F c d st prev name r. \<exists>ns. visits F c d prev name ns \<and> r = rev ns @ st",
      OF _ assms], goal_cases)
  case (1 loop F c d st prev name r)
  show ?case
  proof (cases "truthy name \<and> prev \<noteq> name")
    case False
    with 1(2) have "r = st" by (auto split: option.splits)
    moreover from False have "visits F c d prev name []" by (auto split: option.splits)
    ultimately show ?thesis by (intro exI [of _ "[]"]) simp
  next
    case True
    show ?thesis
    proof (cases "c (toKey name)")
      case None
      with True 1(2) have "r = st" by simp
      moreover from None have "visits F c d prev name []" by simp
      ultimately show ?thesis by (intro exI [of _ "[]"]) simp
    next
      case (Some t)
      with True 1(2) have "loop F c d (name # st) name (assertLayout F (layout_ref t) d) = Some r"
        by simp
      from 1(1) [OF this] obtain ns where
        ns: "visits F c d name (assertLayout F (layout_ref t) d) ns" "r = rev ns @ name # st"
        by blast
      with True Some have "visits F c d prev name (name # ns)" by simp
      with ns(2) show ?thesis by (intro exI [of _ "name # ns"]) simp
    qed
  qed
qed

lemma visits_in_cache:
  "visits F c d prev name ns \<Longrightarrow> n \<in> set ns \<Longrightarrow> truthy n \<and> c (toKey n) \<noteq> None"
  by (induction ns arbitrary: prev name) (auto split: option.splits)

lemma visits_successor:
  "visits F c d prev name ns \<Longrightarrow> x \<in> set ns \<Longrightarrow> c (toKey x) = Some t \<Longrightarrow>
   assertLayout F (layout_ref t) d \<in> set ns
   \<or> visits F c d x (assertLayout F (layout_ref t) d) []"
proof (induction ns arbitrary: prev name)
  case Nil
  then show ?case by simp
next
  case (Cons n ns)
  show ?case
  proof (cases "x = n")
    case True
    with Cons.prems have v: "visits F c d x (assertLayout F (layout_ref t) d) ns"
      by (auto split: option.splits)
    show ?thesis
    proof (cases ns)
      case Nil
      with v show ?thesis by simp
    next
      case (Cons m ms)
      with v have "m = assertLayout F (layout_ref t) d" by (auto split: option.splits)
      with Cons show ?thesis by simp
    qed
  next
    case False
    with Cons.prems obtain t' where
      "visits F c d name (assertLayout F (layout_ref t') d) ns" "x \<in> set ns"
      by (auto split: option.splits)
    from Cons.IH [OF this Cons.prems(3)] show ?thesis by auto
  qed
qed

lemma visits_distinct_aux:
  "visits F c d prev name ns \<Longrightarrow>
   \<not> truthy prev \<or> (\<exists>t. c (toKey prev) = Some t \<and> name = assertLayout F (layout_ref t) d) \<Longrightarrow>
   distinct ns \<and> prev \<notin> set ns"
proof (induction ns arbitrary: prev name)
  case Nil
  then show ?case by simp
next
  case (Cons n ns)
  from Cons.prems(1) obtain t where t: "c (toKey name) = Some t" and n: "n = name"
    and cond: "truthy name" "prev \<noteq> name"
    and v: "visits F c d name (assertLayout F (layout_ref t) d) ns"
    by (auto split: option.splits)
  from Cons.IH [OF v] t have ih: "distinct ns" "name \<notin> set ns" by auto
  have "prev \<notin> set ns"
  proof
    assume p: "prev \<in> set ns"
    with visits_in_cache [OF v] have "truthy prev" by blast
    with Cons.prems(2) obtain tp where tp: "c (toKey prev) = Some tp"
      "name = assertLayout F (layout_ref tp) d" by blast
    from visits_successor [OF v p tp(1)] tp(2) ih(2)
    have "visits F c d prev name []" by auto
    with t cond show False by simp
  qed
  with ih cond n show ?case by auto
qed

lemma createStack_visits:
  "createStack F this name arg = Some (r, this') \<longleftrightarrow>
   (\<exists>ns. visits F (cache_get (cache this))
      (opt_val (defaultLayout (merge_options (options this) arg))) Null
      (assertLayout F name (opt_val (defaultLayout (options this)))) ns \<and> r = rev ns)
   \<and> this' = this\<lparr>options := alias_merge (options this) arg\<rparr>"
proof -
  let ?loop = "createStack_loop F (cache_get (cache this))
      (opt_val (defaultLayout (merge_options (options this) arg))) [] Null
      (assertLayout F name (opt_val (defaultLayout (options this))))"
  have "?loop = Some r \<longleftrightarrow>
    (\<exists>ns. visits F (cache_get (cache this))
      (opt_val (defaultLayout (merge_options (options this) arg))) Null
      (assertLayout F name (opt_val (defaultLayout (options this)))) ns \<and> r = rev ns)"
    using loop_returns [of F _ _ "[]"] loop_visits [of F _ _ _ _ _ "[]"] by fastforce
  then show ?thesis
    by (auto simp: createStack_def split: option.splits)
qed

lemma cache_get_own: "c k = Some t \<Longrightarrow> cache_get c k = Some t"
  by (simp add: cache_get_def)

lemma cache_get_unknown: "c k = None \<Longrightarrow> k \<notin> set inherited_keys \<Longrightarrow> cache_get c k = None"
  by (simp add: cache_get_def)

text \<open>
  C9. Every stack that \<^verbatim>\<open>createStack\<close> returns is a list of pairwise distinct names: a name
  that came back would bring the same successor with it, and the loop would not return.
\<close>

theorem createStack_distinct:
  assumes "createStack isFalsey this name arg = Some (st, this')"
  shows "distinct st"
proof -
  from assms obtain ns where
    "visits isFalsey (cache_get (cache this))
      (opt_val (defaultLayout (merge_options (options this) arg))) Null
      (assertLayout isFalsey name (opt_val (defaultLayout (options this)))) ns" "st = rev ns"
    unfolding createStack_visits by blast
  with visits_distinct_aux [OF this(1)] show ?thesis by simp
qed

lemmas eval_createStack = createStack_def createStack_loop.simps cache_get_def tmpl_of_def
  Layouts_def defaultOptions_def no_options_def merge_options_def alias_merge_def opt_val_def
  assertLayout_def isFalsey_spec_def js_or_def layout_ref_def inherited_keys_def inherited_def
  override_def

theorem createStack_distinct_witness:
  "createStack isFalsey_spec (Layouts None (Some chain_cache)) (Str ''A'') None
     = Some ([Str ''B'', Str ''A''], Layouts None (Some chain_cache))
   \<and> distinct [Str ''B'', Str ''A'']"
proof -
  have "createStack isFalsey_spec (Layouts None (Some chain_cache)) (Str ''A'') None
     = Some ([Str ''B'', Str ''A''], Layouts None (Some chain_cache))"
    by (simp add: eval_createStack chain_cache_def)
  with createStack_distinct [OF this] show ?thesis by simp
qed

lemma visits_step:
  "visits F c d prev name ns \<Longrightarrow> truthy name \<Longrightarrow> prev \<noteq> name \<Longrightarrow> c (toKey name) = Some t \<Longrightarrow>
   \<exists>ns'. ns = name # ns' \<and> visits F c d name (assertLayout F (layout_ref t) d) ns'"
  by (cases ns) auto

lemma loop_cycle_diverges:
  assumes a: "c (toKey x) = Some tx" "assertLayout F (layout_ref tx) d = y"
    and b: "c (toKey y) = Some ty" "assertLayout F (layout_ref ty) d = x"
    and t: "truthy x" "truthy y" and ne: "x \<noteq> y" "prev \<noteq> x"
  shows "createStack_loop F c d st prev x = None"
proof (rule ccontr)
  assume "createStack_loop F c d st prev x \<noteq> None"
  then obtain r where "createStack_loop F c d st prev x = Some r" by blast
  from loop_returns [OF this] obtain ns where v: "visits F c d prev x ns" by blast
  from visits_step [OF v t(1) ne(2) a(1)] a(2) obtain n1 where
    n1: "ns = x # n1" "visits F c d x y n1" by auto
  from visits_step [OF n1(2) t(2) ne(1) b(1)] b(2) obtain n2 where
    n2: "n1 = y # n2" "visits F c d y x n2" by auto
  from ne(1) have "y \<noteq> x" by simp
  from visits_step [OF n2(2) t(1) this a(1)] obtain n3 where n3: "n2 = x # n3" by auto
  from visits_distinct_aux [OF n1(2)] a have "distinct n1 \<and> x \<notin> set n1" by blast
  with n2(1) n3 show False by simp
qed

text \<open>
  C2 fails on the code. On a store where layout \<^verbatim>\<open>a\<close> names \<^verbatim>\<open>b\<close> and layout \<^verbatim>\<open>b\<close> names \<^verbatim>\<open>a\<close>,
  the guard \<^verbatim>\<open>prev !== name\<close> never holds the loop, and \<^verbatim>\<open>createStack\<close> does not return;
  neither do \<^verbatim>\<open>stack\<close> and \<^verbatim>\<open>render\<close>, which call it.
\<close>

theorem createStack_cycle_diverges:
  assumes "cache this a = Some ta" "layout ta = Str b" "cache this b = Some tb" "layout tb = Str a"
    and "a \<noteq> b" "a \<noteq> []" "b \<noteq> []" "\<not> isFalsey (Str a)" "\<not> isFalsey (Str b)"
  shows "createStack isFalsey this (Str a) arg = None
    \<and> stack isFalsey regexp tmpl this (Str a) arg = None
    \<and> render isFalsey regexp tmpl this page (Str a) arg = None"
proof -
  let ?d = "opt_val (defaultLayout (merge_options (options this) arg))"
  from assms have 1: "assertLayout isFalsey (layout_ref ta) ?d = Str b"
    and 2: "assertLayout isFalsey (layout_ref tb) ?d = Str a"
    and 3: "assertLayout isFalsey (Str a) (opt_val (defaultLayout (options this))) = Str a"
    by (simp_all add: layout_ref_def js_or_def assertLayout_def)
  have "createStack_loop isFalsey (cache_get (cache this)) ?d [] Null (Str a) = None"
    by (rule loop_cycle_diverges [where x = "Str a" and y = "Str b" and tx = ta and ty = tb])
      (use assms 1 2 in \<open>simp_all add: cache_get_own\<close>)
  with 3 show ?thesis by (simp add: createStack_def stack_def render_def)
qed

theorem createStack_cycle_diverges_witness:
  "createStack isFalsey_spec (Layouts None (Some cycle_cache)) (Str ''A'') None = None
   \<and> stack isFalsey_spec no_regexp plain_template (Layouts None (Some cycle_cache)) (Str ''A'')
        None = None
   \<and> render isFalsey_spec no_regexp plain_template (Layouts None (Some cycle_cache)) ''page''
        (Str ''A'') None = None"
  by (rule createStack_cycle_diverges [where b = "''B''"])
    (simp add: Layouts_def cycle_cache_def tmpl_of_def isFalsey_spec_def)+

lemma leads_to_visits:
  "leads_to F c d prev name ns n \<Longrightarrow> c (toKey n) = None \<Longrightarrow> visits F c d prev name ns"
  by (induction ns arbitrary: prev name) (auto split: option.splits)

text \<open>
  A layout reference \<^verbatim>\<open>n\<close> that is neither a key of the store nor a key of \<^verbatim>\<open>Object.prototype\<close>
  ends the loop: the stack is the list of the names pushed before it.
\<close>

lemma createStack_unknown_name:
  assumes "leads_to F (cache_get (cache this))
      (opt_val (defaultLayout (merge_options (options this) arg))) Null
      (assertLayout F name (opt_val (defaultLayout (options this)))) ns n"
    and "cache_get (cache this) (toKey n) = None"
  shows "stack_of (createStack F this name arg) = Some (rev ns)" "n \<notin> set (rev ns)"
proof -
  from leads_to_visits [OF assms] have
    v: "visits F (cache_get (cache this)) (opt_val (defaultLayout (merge_options (options this) arg)))
      Null (assertLayout F name (opt_val (defaultLayout (options this)))) ns" .
  then have "createStack F this name arg
      = Some (rev ns, this\<lparr>options := alias_merge (options this) arg\<rparr>)"
    unfolding createStack_visits by blast
  then show "stack_of (createStack F this name arg) = Some (rev ns)"
    by (simp add: stack_of_def)
  from visits_in_cache [OF v, of n] assms(2) show "n \<notin> set (rev ns)" by auto
qed

text \<open>On \<^verbatim>\<open>{A: {layout: 'missing'}}\<close> the stack for \<^verbatim>\<open>A\<close> stops before the missing name.\<close>

lemma createStack_dangling:
  "stack_of (createStack isFalsey_spec (Layouts None (Some dangling_cache)) (Str ''A'') None)
     = Some [Str ''A'']"
  by (simp add: stack_of_def eval_createStack dangling_cache_def)

section \<open>The default body tag\<close>

lemma alias_merge_None [simp]: "alias_merge t None = t"
  by (simp add: alias_merge_def merge_options_def)

lemma merge_options_None [simp]: "merge_options t None = t"
  by (simp add: merge_options_def)

lemma map_add_idem [simp]: "m ++ m = m" "(a ++ m) ++ m = a ++ m"
  by (rule ext, simp add: map_add_def split: option.splits)+

lemma makeTag_default:
  "makeTag (Layouts None c) (tag_args (options (Layouts None c))) = body_tag"
  by (simp add: makeTag_def Layouts_def defaultOptions_def no_options_def tag_args_def
      merge_tagopts_def override_def str_or_def body_tag_def)

lemmas eval_regex = makeRegex_def makeTag_def new_RegExp_def defaultOptions_def no_options_def
  merge_tagopts_def override_def str_or_def parse_flags_def body_regex_def body_pieces_def
  backslash_def escaped_def special_def punct_def

lemma makeRegex_default:
  "makeRegex R (Layouts None c) None = (Some body_regex, Layouts None c)"
  by (simp add: eval_regex Layouts_def)

text \<open>
  Flags and delimiters outside the fragment go to the engine; a \<^verbatim>\<open>defaultTag\<close> passed to the call
  is merged into the instance's before \<^verbatim>\<open>makeTag\<close> reads it.
\<close>

lemma makeRegex_flags_engine:
  "fst (makeRegex R (Layouts (Some (no_options\<lparr>a_flags := Some ''i''\<rparr>)) c) None)
     = map_option Native
         (R (escape_tag (''{%='' @ backslash # ''s*body'' @ backslash # ''s*%}'')) ''i'')"
  by (simp add: eval_regex Layouts_def)

lemma makeRegex_delims_engine:
  "fst (makeRegex R (Layouts (Some (no_options\<lparr>a_delims := Some (''<?'', ''?>'')\<rparr>)) c) None)
     = map_option Native (R (''<?'' @ backslash # ''s*body'' @ backslash # ''s*?>'') ''g'')"
  by (simp add: eval_regex Layouts_def)

lemma makeRegex_defaultTag:
  "makeRegex R (Layouts None c)
     (Some (no_options\<lparr>a_defaultTag :=
        Some \<lparr>tdelims = Some (''<%'', ''%>''), ttag = None, tsep = None\<rparr>\<rparr>))
   = (Some (Pieces
        [One (Lit CHR ''<''), One (Lit CHR ''%''), Star WS,
         One (Lit CHR ''b''), One (Lit CHR ''o''), One (Lit CHR ''d''), One (Lit CHR ''y''),
         Star WS, One (Lit CHR ''%''), One (Lit CHR ''>'')] True),
      (Layouts None c)\<lparr>options := (options (Layouts None c))
         \<lparr>defaultTag := \<lparr>tdelims = Some (''<%'', ''%>''), ttag = Some ''body'', tsep = None\<rparr>\<rparr>\<rparr>)"
  by (simp add: eval_regex Layouts_def merge_options_def alias_merge_def)

lemma expand_plain: "\<not> has_pattern repl \<Longrightarrow> expand repl m b a = repl"
  by (induction repl m b a rule: expand.induct) (auto split: if_splits)

lemma match_other: "x \<noteq> CHR ''{'' \<Longrightarrow> match_at body_pieces (x # xs) = None"
  by (simp add: body_pieces_def)

lemma match_tag: "match_at body_pieces (body_tag @ post) = Some 11"
  by (simp add: body_pieces_def body_tag_def white_def)

lemma replace_rest:
  "CHR ''{'' \<notin> set post \<Longrightarrow> replace_from body_pieces g repl pre post = post"
proof (induction post arbitrary: pre)
  case Nil
  show ?case by (simp add: body_pieces_def)
next
  case (Cons x xs)
  then have "x \<noteq> CHR ''{''" by auto
  with Cons show ?case by (simp add: match_other)
qed

lemma replace_from_match:
  "match_at p (x # xs) = Some (Suc n) \<Longrightarrow>
   replace_from p True repl pre (x # xs) =
     expand repl (take (Suc n) (x # xs)) pre (drop (Suc n) (x # xs)) @
     replace_from p True repl (pre @ take (Suc n) (x # xs)) (drop n xs)"
  by simp

lemma replace_tag:
  assumes "CHR ''{'' \<notin> set post" "\<not> has_pattern repl"
  shows "replace_from body_pieces True repl pre (body_tag @ post) = repl @ post"
proof -
  have e: "body_tag @ post = CHR ''{'' # (''%= body %}'' @ post)"
    by (simp add: body_tag_def)
  have m: "match_at body_pieces (CHR ''{'' # (''%= body %}'' @ post)) = Some (Suc 10)"
    using match_tag [of post] unfolding e by simp
  have d: "drop 10 (''%= body %}'' @ post) = post" by simp
  show ?thesis
    unfolding e replace_from_match [OF m] d
    using assms by (simp add: expand_plain replace_rest)
qed

lemma replace_body:
  assumes "CHR ''{'' \<notin> set pre" "CHR ''{'' \<notin> set post" "\<not> has_pattern repl"
  shows "js_replace body_regex (pre @ body_tag @ post) repl = pre @ repl @ post"
proof -
  have "replace_from body_pieces True repl b (pre @ body_tag @ post) = pre @ repl @ post" for b
    using assms(1)
  proof (induction pre arbitrary: b)
    case Nil
    from replace_tag [OF assms(2,3)] show ?case by simp
  next
    case (Cons x xs)
    then have "x \<noteq> CHR ''{''" by auto
    with Cons show ?case by (simp add: match_other)
  qed
  then show ?thesis by (simp add: body_regex_def)
qed

lemma makeRegex_default_arg:
  "options this = (defaultOptions no_options)\<lparr>locals := l\<rparr> \<Longrightarrow>
   makeRegex R this (Some (as_arg (options this))) = (Some body_regex, this)"
  by (simp add: eval_regex merge_options_def alias_merge_def as_arg_def mixin_deep_def)

text \<open>
  C6, as the code has it. The default body tag is \<^verbatim>\<open>{%= body %}\<close>: with default options
  \<^verbatim>\<open>replaceTag('ABC', 'Before {%= body %} After')\<close> returns \<^verbatim>\<open>'Before ABC After'\<close>, and the
  string \<^verbatim>\<open>'Before {% body %} After'\<close> holds no tag and comes back as it is.
\<close>

theorem replaceTag_default:
  "fst (replaceTag regexp (Layouts None c) ''ABC'' ''Before {%= body %} After'' None)
     = Inr ''Before ABC After''
   \<and> fst (replaceTag regexp (Layouts None c) ''ABC'' ''Before {% body %} After'' None)
       = Inr ''Before {% body %} After''"
proof -
  have "js_replace body_regex (''Before '' @ body_tag @ '' After'') ''ABC''
      = ''Before '' @ ''ABC'' @ '' After''"
    by (rule replace_body) simp_all
  moreover have "js_replace body_regex ''Before {% body %} After'' ''ABC''
      = ''Before {% body %} After''"
    by (simp add: body_regex_def body_pieces_def)
  ultimately show ?thesis
    by (simp add: replaceTag_def makeRegex_default body_tag_def)
qed

text \<open>C6 as stated fails: the tag \<^verbatim>\<open>{% body %}\<close> is not replaced.\<close>

theorem replaceTag_default_counterexample:
  "fst (replaceTag no_regexp (Layouts None None) ''ABC'' ''Before {% body %} After'' None)
     \<noteq> Inr ''Before ABC After''"
proof -
  have "js_replace body_regex ''Before {% body %} After'' ''ABC''
      = ''Before {% body %} After''"
    by (simp add: body_regex_def body_pieces_def)
  then show ?thesis
    by (simp add: replaceTag_def makeRegex_default)
qed

section \<open>Properties of stack and render\<close>

lemma merge_alias [simp]: "merge_options (alias_merge t arg) arg = merge_options t arg"
  by (cases arg)
    (auto simp: merge_options_def alias_merge_def mixin_deep_def merge_tagopts_def override_def
      split: option.splits)

lemma merge_self [simp]: "merge_options t (Some (as_arg t)) = t"
  by (simp add: merge_options_def as_arg_def mixin_deep_def merge_tagopts_def override_def
      split: option.splits)

lemma alias_self [simp]: "alias_merge t (Some (as_arg t)) = t"
  by (simp add: alias_merge_def)

lemma makeRegex_self:
  "makeRegex R this (Some (as_arg (options this))) =
    (fst (makeRegex R this (Some (as_arg (options this)))), this)"
  by (simp add: makeRegex_def Let_def)

lemma stack_default:
  assumes "stack_of (createStack F this name None) = Some st"
    and "options this = (defaultOptions no_options)\<lparr>locals := l\<rparr>"
  shows "stack F R T this name None =
    Some (reduce_stack T body_tag body_regex (this\<lparr>regex := Some body_regex\<rparr>) empty_result st)"
proof -
  from assms(1) have c: "createStack F this name None = Some (st, this)"
    by (auto simp: stack_of_def createStack_def split: option.splits)
  have 2: "makeTag this (tag_args (options this)) = body_tag"
    by (simp add: assms(2) makeTag_def defaultOptions_def no_options_def tag_args_def
      merge_tagopts_def override_def str_or_def body_tag_def)
  show ?thesis
    by (simp add: stack_def c 2 makeRegex_default_arg [OF assms(2)])
qed

lemma options_Layouts: "options (Layouts None c) = (defaultOptions no_options)\<lparr>locals := Map.empty\<rparr>"
  by (simp add: Layouts_def defaultOptions_def)

lemmas stack_fresh = stack_default [OF _ options_Layouts]

lemma mergeData_frame [simp]:
  "cache (mergeData this t) = cache this" "regex (mergeData this t) = regex this"
  by (simp_all add: mergeData_def)



lemma str_or_body [simp]: "str_or (Some (x @ body_tag @ y)) z = x @ body_tag @ y"
  by (simp add: str_or_def body_tag_def)



lemma cache_Layouts [simp]: "cache (Layouts arg (Some c)) = c"
  by (simp add: Layouts_def)

lemma defaultLayout_Layouts [simp]: "defaultLayout (options (Layouts None c)) = None"
  by (simp add: Layouts_def defaultOptions_def no_options_def)



lemma options_regex [simp]: "options (this\<lparr>regex := r\<rparr>) = options this"
  by simp



lemmas eval_stack = reduce_step_def renderLayout_def plain_template_def Let_def empty_result_def
  str_or_def body_tag_def body_regex_def body_pieces_def white_def mergeData_def template_data_def
  defaultLayout_fn_def as_arg_def mixin_deep_def omit_def





text \<open>
  C7 fails on the code. \<^verbatim>\<open>createStack\<close> looks a name up with \<^verbatim>\<open>this.cache[name]\<close>, and the cache
  is a plain object: a layout reference such as \<^verbatim>\<open>'toString'\<close>, registered nowhere, finds the
  method inherited from \<^verbatim>\<open>Object.prototype\<close>. On the store
  \<^verbatim>\<open>{A: {content: '<a>{%= body %}</a>', layout: 'toString'}}\<close> with default options,
  \<^verbatim>\<open>createStack('A')\<close> returns \<^verbatim>\<open>['toString', 'A']\<close>: the missing name is in the stack. The fold
  then replaces the body tag with the \<^verbatim>\<open>content\<close> of the inherited function, \<^verbatim>\<open>undefined\<close>, and
  \<^verbatim>\<open>render('page', 'A')\<close> returns \<^verbatim>\<open>'undefined'\<close>: neither the page nor \<^verbatim>\<open>A\<close>'s content is in
  the output.
\<close>

theorem createStack_inherited_key:
  "stack_of (createStack isFalsey_spec (Layouts None (Some toString_cache)) (Str ''A'') None)
      = Some [Str ''toString'', Str ''A'']
   \<and> rendered_content (render isFalsey_spec no_regexp plain_template
         (Layouts None (Some toString_cache)) ''page'' (Str ''A'') None)
       = Some ''undefined''"
proof -
  have cs: "stack_of (createStack isFalsey_spec (Layouts None (Some toString_cache)) (Str ''A'')
      None) = Some [Str ''toString'', Str ''A'']"
    by (simp add: stack_of_def eval_createStack toString_cache_def)
  have "rendered_content (render isFalsey_spec no_regexp plain_template
         (Layouts None (Some toString_cache)) ''page'' (Str ''A'') None)
       = Some ''undefined''"
    unfolding render_def stack_fresh [OF cs]
    by (simp add: rendered_content_def eval_stack cache_get_def toString_cache_def tmpl_of_def
        Layouts_def inherited_keys_def inherited_def)
  with cs show ?thesis by simp
qed

section \<open>What a call leaves on the instance\<close>

lemma reduce_step_data:
  "reduce_step T tg rx this acc v = (Inr acc', this') \<Longrightarrow> r_data acc' = Some this'"
  by (auto simp: reduce_step_def Let_def split: option.splits)

lemma reduce_stack_data:
  "reduce_stack T tg rx this acc st = (Inr res, this') \<Longrightarrow> st \<noteq> [] \<or> r_data acc = Some this \<Longrightarrow>
   r_data res = Some this'"
proof (induction st arbitrary: this acc)
  case Nil
  then show ?case by simp
next
  case (Cons v vs)
  obtain o1 s1 where s: "reduce_step T tg rx this acc v = (o1, s1)"
    by (cases "reduce_step T tg rx this acc v")
  with Cons.prems(1) obtain acc' where o1: "o1 = Inr acc'"
    and r: "reduce_stack T tg rx s1 acc' vs = (Inr res, this')"
    by (cases o1) auto
  from s o1 have "r_data acc' = Some s1" by (simp add: reduce_step_data)
  with Cons.IH [OF r] show ?case by simp
qed

lemma fold_locals_cong:
  "mergeFn p' = mergeFn p \<Longrightarrow> omitKeys p' = omitKeys p \<Longrightarrow>
   fold_locals p' c st l = fold_locals p c st l"
  by (induction st arbitrary: l) (auto split: option.splits)

lemma reduce_stack_options:
  "reduce_stack T tg rx this acc st = (out, this') \<Longrightarrow>
   \<exists>k\<le>length st. (isl out \<or> k = length st) \<and> cache this' = cache this
     \<and> regex this' = regex this
     \<and> options this' = (options this)
         \<lparr>locals := fold_locals (options this) (cache this) (take k st) (locals (options this))\<rparr>"
proof (induction st arbitrary: this acc)
  case Nil
  then show ?case by auto
next
  case (Cons v vs)
  show ?case
  proof (cases "cache_get (cache this) (toKey v)")
    case None
    with Cons.prems have "out = Inl TypeError" "this' = this"
      by (simp_all add: reduce_step_def)
    then show ?thesis by (intro exI [of _ 0]) simp
  next
    case (Some t)
    let ?s1 = "mergeData this t"
    have o1: "options ?s1 = (options this)
        \<lparr>locals := fold_locals (options this) (cache this) [v] (locals (options this))\<rparr>"
      by (simp add: mergeData_def Some)
    obtain o' s' where s: "reduce_step T tg rx this acc v = (o', s')"
      by (cases "reduce_step T tg rx this acc v")
    with Some have s': "s' = ?s1"
      by (auto simp: reduce_step_def Let_def split: option.splits)
    show ?thesis
    proof (cases o')
      case (Inl e)
      with Cons.prems s s' have "out = Inl e" "this' = ?s1" by simp_all
      with o1 show ?thesis by (intro exI [of _ 1]) simp
    next
      case (Inr acc')
      with Cons.prems s s' have "reduce_stack T tg rx ?s1 acc' vs = (out, this')" by simp
      from Cons.IH [OF this] obtain k where k: "k \<le> length vs" "isl out \<or> k = length vs"
        "cache this' = cache this" "regex this' = regex this"
        "options this' = (options ?s1)
          \<lparr>locals := fold_locals (options ?s1) (cache this) (take k vs) (locals (options ?s1))\<rparr>"
        by auto
      have c: "fold_locals (options ?s1) = fold_locals (options this)"
        by (intro ext fold_locals_cong) (simp_all add: mergeData_def)
      have "options this' = (options this)
         \<lparr>locals := fold_locals (options this) (cache this) (take (Suc k) (v # vs))
            (locals (options this))\<rparr>"
        unfolding k(5) c by (simp add: o1 Some)
      with k(1-4) show ?thesis by (intro exI [of _ "Suc k"]) auto
    qed
  qed
qed

lemma fold_locals_mixin:
  "mergeFn opts = mixin_deep \<Longrightarrow>
   fold_locals opts c st l = l ++ stack_data c (omitKeys opts) st"
  by (induction st arbitrary: l) (auto simp: mixin_deep_def split: option.splits)

lemma locals_merge_options:
  "locals (merge_options t arg) = locals t ++ arg_locals arg"
  by (auto simp: merge_options_def arg_locals_def mixin_deep_def split: option.splits)

lemma stack_cases:
  assumes "stack F R T this name arg = Some (out, this')"
  obtains (regexp) st where "stack_of (createStack F this name arg) = Some st"
      "out = Inl RegExpError"
      "this' = this\<lparr>options := merge_options (options this) arg\<rparr>"
      "fst (makeRegex R (this\<lparr>options := merge_options (options this) arg\<rparr>)
         (Some (as_arg (merge_options (options this) arg)))) = None"
  | (fold) st rx where "stack_of (createStack F this name arg) = Some st"
      "fst (makeRegex R (this\<lparr>options := merge_options (options this) arg\<rparr>)
         (Some (as_arg (merge_options (options this) arg)))) = Some rx"
      "reduce_stack T
         (makeTag (this\<lparr>options := merge_options (options this) arg\<rparr>)
            (tag_args (merge_options (options this) arg))) rx
         (this\<lparr>options := merge_options (options this) arg, regex := Some rx\<rparr>)
         empty_result st = (out, this')"
proof -
  let ?this1 = "this\<lparr>options := merge_options (options this) arg\<rparr>"
  from assms obtain st this0 where c: "createStack F this name arg = Some (st, this0)"
    by (auto simp: stack_def split: option.splits)
  then have 0: "this0 = this\<lparr>options := alias_merge (options this) arg\<rparr>"
    unfolding createStack_visits by simp
  let ?o = "merge_options (options this) arg"
  obtain r where 2: "makeRegex R ?this1 (Some (as_arg ?o)) = (r, ?this1)"
    using makeRegex_self [of R ?this1] by simp
  from c have so: "stack_of (createStack F this name arg) = Some st"
    by (simp add: stack_of_def)
  show ?thesis
  proof (cases r)
    case None
    with assms c [unfolded 0] 2 have "out = Inl RegExpError" "this' = ?this1"
      by (simp_all add: stack_def Let_def)
    with None 2 so regexp show ?thesis by simp
  next
    case (Some rx)
    with assms c [unfolded 0] 2 have "reduce_stack T (makeTag ?this1 (tag_args ?o)) rx
        (?this1\<lparr>regex := Some rx\<rparr>) empty_result st = (out, this')"
      by (simp add: stack_def Let_def)
    with Some 2 so fold show ?thesis by simp
  qed
qed

lemma render_state:
  "stack F R T this name arg = Some (out, this') \<Longrightarrow>
   map_option snd (render F R T this page name arg) = Some this'"
  by (cases out) (auto simp: render_def split: option.splits)

lemma createStack_frame:
  assumes "cache this' = cache this" "defaultLayout (options this') = defaultLayout (options this)"
  shows "stack_of (createStack F this' n a) = stack_of (createStack F this n a)"
  using assms
  by (cases a) (simp_all add: createStack_def stack_of_def merge_options_def split: option.splits)

lemma createStack_data_a:
  "stack_of (createStack isFalsey_spec (Layouts None (Some data_cache)) (Str ''a'') None)
     = Some [Str ''a'']"
  by (simp add: stack_of_def eval_createStack data_cache_def)

lemma createStack_data_b:
  "stack_of (createStack isFalsey_spec this (Str ''b'') None) = Some [Str ''b'']"
  if "cache this = data_cache" "defaultLayout (options this) = None"
  using that
  by (simp add: stack_of_def createStack_def createStack_loop.simps cache_get_def data_cache_def
        tmpl_of_def opt_val_def assertLayout_def isFalsey_spec_def js_or_def layout_ref_def)

lemma omit_title:
  "omit [''title'' \<mapsto> v] [''mergeFn'', ''content'', ''delims'', ''layout''] = [''title'' \<mapsto> v]"
  by (rule ext) (simp add: omit_def restrict_map_def)

lemma first_call:
  "stack isFalsey_spec no_regexp plain_template (Layouts None (Some data_cache)) (Str ''a'') None
    = Some (Inr \<lparr>r_data = Some after_a, r_content = Some ''{% body %}'', r_regex = Some body_regex,
        r_tag = Some ''{%= body %}''\<rparr>, after_a)"
proof -
  have "mergeData ((Layouts None (Some data_cache))\<lparr>regex := Some body_regex\<rparr>)
     \<lparr>content = Some ''{% body %}'', layout = Undefined,
               data = Some [''title'' \<mapsto> Str ''A''], tlocals = None\<rparr> = after_a"
    by (simp add: mergeData_def template_data_def after_a_def Layouts_def mixin_deep_def
        defaultOptions_def omit_title)
  then show ?thesis
    unfolding stack_fresh [OF createStack_data_a]
    by (simp add: reduce_step_def cache_get_def data_cache_def renderLayout_def
        plain_template_def Layouts_def Let_def empty_result_def str_or_def body_tag_def
        body_regex_def body_pieces_def white_def)
qed

lemma second_call:
  "local_after (stack isFalsey_spec no_regexp plain_template after_a (Str ''b'') None) ''title''
    = Some (Str ''A'')"
proof -
  have c: "stack_of (createStack isFalsey_spec after_a (Str ''b'') None) = Some [Str ''b'']"
    by (rule createStack_data_b) (simp_all add: after_a_def defaultOptions_def no_options_def)
  have o: "options after_a = (defaultOptions no_options)\<lparr>locals := [''title'' \<mapsto> Str ''A'']\<rparr>"
    by (simp add: after_a_def)
  show ?thesis
    unfolding stack_default [OF c o]
    by (simp add: local_after_def reduce_step_def after_a_def cache_get_def data_cache_def
        tmpl_of_def renderLayout_def plain_template_def Let_def mergeData_def template_data_def
        defaultOptions_def mixin_deep_def omit_def split: prod.splits)
qed

lemma createStack_undefined:
  "stack_of (createStack isFalsey_spec (Layouts None (Some base_cache)) Undefined a) = Some []"
  by (simp add: stack_of_def createStack_def createStack_loop.simps cache_get_def Layouts_def
        defaultOptions_def no_options_def opt_val_def assertLayout_def js_or_def base_cache_def
        inherited_keys_def)

text \<open>
  C5 fails on the code. \<^verbatim>\<open>_mergeData\<close> ends with \<^verbatim>\<open>return this\<close>, so the \<^verbatim>\<open>data\<close> of the
  result of \<^verbatim>\<open>stack\<close> over a non-empty stack is the instance itself, not the merged context;
  the merged keys are in the instance's \<^verbatim>\<open>options.locals\<close>.
\<close>

theorem stack_data_is_instance:
  assumes "stack isFalsey regexp tmpl this name arg = Some (Inr res, this')"
    and "createStack isFalsey this name arg = Some (st, this0)" "st \<noteq> []"
  shows "r_data res = Some this'"
  using assms(1)
proof (cases rule: stack_cases)
  case (regexp st')
  then show ?thesis by simp
next
  case (fold st' rx)
  with assms(2,3) reduce_stack_data [OF fold(3)] show ?thesis by (simp add: stack_of_def)
qed

theorem stack_data_is_instance_witness:
  "\<exists>res this'.
     stack isFalsey_spec no_regexp plain_template (Layouts None (Some data_cache)) (Str ''a'') None
       = Some (Inr res, this')
     \<and> r_data res = Some this' \<and> r_content res = Some ''{% body %}''
     \<and> locals (options this') ''title'' = Some (Str ''A'')"
proof -
  obtain res this' where
    s: "stack isFalsey_spec no_regexp plain_template (Layouts None (Some data_cache)) (Str ''a'')
       None = Some (Inr res, this')"
    and c: "r_content res = Some ''{% body %}''"
    and l: "locals (options this') ''title'' = Some (Str ''A'')"
    using first_call by (simp add: after_a_def)
  have "createStack isFalsey_spec (Layouts None (Some data_cache)) (Str ''a'') None
      = Some ([Str ''a''], Layouts None (Some data_cache))"
    by (simp add: eval_createStack data_cache_def)
  from stack_data_is_instance [OF s this] s c l show ?thesis by simp
qed

text \<open>
  C8, as the code has it. A call of \<^verbatim>\<open>stack\<close> that returns (with the default \<^verbatim>\<open>mergeFn\<close>)
  leaves in the instance's \<^verbatim>\<open>options.locals\<close> what was there before the call, with the
  \<^verbatim>\<open>locals\<close> of the call's options and then the data of each layout of the stack, in the order
  of the stack and without the keys of \<^verbatim>\<open>omitKeys\<close>, merged over it: a value of an earlier call
  stays unless the call brings the same key, and the context is not recomputed from scratch.
  \<^verbatim>\<open>render\<close> leaves the instance as \<^verbatim>\<open>stack\<close> does. The stack is recomputed: after a call
  without options, \<^verbatim>\<open>createStack\<close> resolves every name as it did before.
\<close>

theorem stack_context_persists:
  assumes "stack isFalsey regexp tmpl this name arg = Some (Inr res, this')"
    and "mergeFn (merge_options (options this) arg) = mixin_deep"
  shows "(\<exists>st. stack_of (createStack isFalsey this name arg) = Some st
        \<and> locals (options this')
            = locals (options this) ++ arg_locals arg
              ++ stack_data (cache this) (omitKeys (merge_options (options this) arg)) st)
    \<and> map_option snd (render isFalsey regexp tmpl this page name arg) = Some this'
    \<and> (arg = None
       \<longrightarrow> stack_of (createStack isFalsey this' n a) = stack_of (createStack isFalsey this n a))"
  using assms(1)
proof (cases rule: stack_cases)
  case (regexp st)
  then show ?thesis by simp
next
  case (fold st rx)
  let ?o = "merge_options (options this) arg"
  from reduce_stack_options [OF fold(3)] have
    f: "cache this' = cache this"
       "options this' = ?o\<lparr>locals := fold_locals ?o (cache this) st (locals ?o)\<rparr>"
    by auto
  from f(2) have "locals (options this') = fold_locals ?o (cache this) st (locals ?o)" by simp
  also have "\<dots> = locals ?o ++ stack_data (cache this) (omitKeys ?o) st"
    by (rule fold_locals_mixin [OF assms(2)])
  finally have 1: "locals (options this')
      = locals (options this) ++ arg_locals arg ++ stack_data (cache this) (omitKeys ?o) st"
    by (simp add: locals_merge_options)
  have "stack_of (createStack isFalsey this' n a) = stack_of (createStack isFalsey this n a)"
    if "arg = None"
  proof (rule createStack_frame [OF f(1)])
    from that f(2) show "defaultLayout (options this') = defaultLayout (options this)" by simp
  qed
  with 1 fold(1) render_state [OF assms(1)] show ?thesis by blast
qed

theorem stack_context_persists_witness:
  "stack isFalsey_spec no_regexp plain_template (Layouts None (Some data_cache)) (Str ''a'') None
     = Some (Inr \<lparr>r_data = Some after_a, r_content = Some ''{% body %}'',
          r_regex = Some body_regex, r_tag = Some ''{%= body %}''\<rparr>, after_a)
   \<and> locals (options after_a)
       = locals (options (Layouts None (Some data_cache))) ++ arg_locals None
         ++ stack_data data_cache [''mergeFn'', ''content'', ''delims'', ''layout''] [Str ''a'']
   \<and> map_option snd (render isFalsey_spec no_regexp plain_template
         (Layouts None (Some data_cache)) ''page'' (Str ''a'') None) = Some after_a
   \<and> stack_of (createStack isFalsey_spec after_a (Str ''b'') None)
       = stack_of (createStack isFalsey_spec (Layouts None (Some data_cache)) (Str ''b'') None)"
proof -
  have m: "mergeFn (merge_options (options (Layouts None (Some data_cache))) None) = mixin_deep"
    by (simp add: Layouts_def defaultOptions_def)
  have k: "omitKeys (merge_options (options (Layouts None (Some data_cache))) None)
      = [''mergeFn'', ''content'', ''delims'', ''layout'']"
    by (simp add: Layouts_def defaultOptions_def)
  from stack_context_persists [OF first_call m, of "''page''" "Str ''b''" None]
  have "locals (options after_a)
       = locals (options (Layouts None (Some data_cache))) ++ arg_locals None
         ++ stack_data data_cache
              (omitKeys (merge_options (options (Layouts None (Some data_cache))) None))
              [Str ''a'']
     \<and> map_option snd (render isFalsey_spec no_regexp plain_template
         (Layouts None (Some data_cache)) ''page'' (Str ''a'') None) = Some after_a
     \<and> stack_of (createStack isFalsey_spec after_a (Str ''b'') None)
       = stack_of (createStack isFalsey_spec (Layouts None (Some data_cache)) (Str ''b'') None)"
    by (auto simp del: stack_data.simps merge_options_None simp: createStack_data_a)
  then show ?thesis unfolding k using first_call by blast
qed

text \<open>
  C8 as stated fails: \<^verbatim>\<open>stack('b')\<close> after \<^verbatim>\<open>stack('a')\<close> on the same instance leaves the key
  \<^verbatim>\<open>title\<close> of layout \<^verbatim>\<open>a\<close> in the context, and \<^verbatim>\<open>stack('b')\<close> alone does not.
\<close>

theorem stack_context_counterexample:
  "local_after (stack_twice isFalsey_spec no_regexp plain_template
       (Layouts None (Some data_cache)) (Str ''a'') (Str ''b'')) ''title'' = Some (Str ''A'')
   \<and> local_after (stack isFalsey_spec no_regexp plain_template (Layouts None (Some data_cache))
       (Str ''b'') None) ''title'' = None"
proof -
  have c: "stack_of (createStack isFalsey_spec (Layouts None (Some data_cache)) (Str ''b'') None)
      = Some [Str ''b'']"
    by (rule createStack_data_b) simp_all
  have "local_after (stack isFalsey_spec no_regexp plain_template
       (Layouts None (Some data_cache)) (Str ''b'') None) ''title'' = None"
    unfolding stack_fresh [OF c]
    by (simp add: local_after_def reduce_step_def Layouts_def cache_get_def data_cache_def
        tmpl_of_def renderLayout_def plain_template_def Let_def mergeData_def template_data_def
        defaultOptions_def mixin_deep_def omit_def split: prod.splits)
  with second_call show ?thesis
    by (simp add: stack_twice_def first_call)
qed

text \<open>
  C10. A call \<^verbatim>\<open>stack(name, options)\<close> that returns or throws leaves \<^verbatim>\<open>this.options\<close> equal to
  the instance's options merged with the argument (every key of the argument, its \<^verbatim>\<open>locals\<close>
  and \<^verbatim>\<open>defaultTag\<close> merged into the instance's), with the data of the layouts that the fold
  reached (all of them when the call returns) merged into \<^verbatim>\<open>locals\<close> by \<^verbatim>\<open>mergeFn\<close>. It leaves
  the cache as it was, and in \<^verbatim>\<open>this.regex\<close> the regular expression compiled from the merged
  options; when \<^verbatim>\<open>new RegExp\<close> throws, \<^verbatim>\<open>this.regex\<close> is not assigned. \<^verbatim>\<open>render\<close> leaves the
  instance as \<^verbatim>\<open>stack\<close> does.
\<close>

theorem stack_merges_options:
  assumes "stack isFalsey regexp tmpl this name arg = Some (out, this')"
  shows "(\<exists>st k. stack_of (createStack isFalsey this name arg) = Some st
        \<and> k \<le> length st \<and> (isl out \<or> k = length st)
        \<and> options this' = (merge_options (options this) arg)
            \<lparr>locals := fold_locals (merge_options (options this) arg) (cache this) (take k st)
               (locals (merge_options (options this) arg))\<rparr>)
    \<and> cache this' = cache this
    \<and> regex this' =
        (case fst (makeRegex regexp (this\<lparr>options := merge_options (options this) arg\<rparr>)
                (Some (as_arg (merge_options (options this) arg)))) of
           None \<Rightarrow> regex this
         | Some rx \<Rightarrow> Some rx)
    \<and> map_option snd (render isFalsey regexp tmpl this page name arg) = Some this'"
  using assms
proof (cases rule: stack_cases)
  case (regexp st)
  let ?o = "merge_options (options this) arg"
  have "options this' = ?o\<lparr>locals := fold_locals ?o (cache this) (take 0 st) (locals ?o)\<rparr>"
    using regexp(3) by simp
  with regexp(1,2) have "\<exists>st k. stack_of (createStack isFalsey this name arg) = Some st
        \<and> k \<le> length st \<and> (isl out \<or> k = length st)
        \<and> options this' = ?o\<lparr>locals := fold_locals ?o (cache this) (take k st) (locals ?o)\<rparr>"
    by (intro exI [of _ st] exI [of _ 0]) simp
  with regexp(3,4) render_state [OF assms] show ?thesis by simp
next
  case (fold st rx)
  from reduce_stack_options [OF fold(3)] fold(1,2) render_state [OF assms] show ?thesis
    by auto
qed

theorem stack_merges_options_witness:
  "stack isFalsey_spec no_regexp plain_template (Layouts None (Some base_cache)) Undefined
       (Some default_base_arg) = Some (Inr empty_result, after_default_base)
   \<and> options after_default_base
       = merge_options (options (Layouts None (Some base_cache))) (Some default_base_arg)
   \<and> defaultLayout (options after_default_base) = Some (Str ''base'')
   \<and> regex after_default_base = Some body_regex
   \<and> stack_of (createStack isFalsey_spec (Layouts None (Some base_cache)) Undefined None)
       = Some []
   \<and> stack_of (createStack isFalsey_spec after_default_base Undefined None)
       = Some [Str ''base'']"
proof -
  let ?L = "Layouts None (Some base_cache)"
  have 1: "merge_options (options ?L) (Some default_base_arg) = options after_default_base"
    by (simp add: merge_options_def default_base_arg_def after_default_base_def Layouts_def
        defaultOptions_def no_options_def override_def mixin_deep_def)
  have 2: "makeRegex no_regexp (?L\<lparr>options := options after_default_base\<rparr>)
      (Some (as_arg (options after_default_base)))
      = (Some body_regex, ?L\<lparr>options := options after_default_base\<rparr>)"
    by (simp add: after_default_base_def eval_regex merge_options_def alias_merge_def as_arg_def
        mixin_deep_def)
  have c: "createStack isFalsey_spec ?L Undefined (Some default_base_arg) = Some ([], ?L)"
    by (simp add: createStack_def createStack_loop.simps cache_get_def Layouts_def
        defaultOptions_def no_options_def opt_val_def assertLayout_def js_or_def base_cache_def
        inherited_keys_def alias_merge_def merge_options_def default_base_arg_def override_def
        merge_tagopts_def)
  have s: "stack isFalsey_spec no_regexp plain_template ?L Undefined (Some default_base_arg)
      = Some (Inr empty_result, after_default_base)"
    by (simp add: stack_def c 1 2) (simp add: after_default_base_def Layouts_def)
  have 3: "stack_of (createStack isFalsey_spec after_default_base Undefined None)
      = Some [Str ''base'']"
    by (simp add: stack_of_def createStack_def createStack_loop.simps cache_get_def
        after_default_base_def base_cache_def tmpl_of_def defaultOptions_def no_options_def
        opt_val_def assertLayout_def isFalsey_spec_def js_or_def layout_ref_def)
  have r: "regex after_default_base = Some body_regex"
    using stack_merges_options [OF s] by (simp add: 1 2)
  have d: "defaultLayout (options after_default_base) = Some (Str ''base'')"
    by (simp add: after_default_base_def)
  from s r d 3 1 createStack_undefined [of None] show ?thesis by simp
qed

end
